theory Spec2Isabelle
  imports
    Complex_Main
    "HOL-Library.Char_ord"
    "HOL-Library.List_Lexorder"
    "HOL-Library.Product_Lexorder"
    "HOL-Library.Multiset"
begin

section \<open>Organisation lookup and request insights\<close>

text \<open>
  A shallow embedding of the two Streamlit pages \<^verbatim>\<open>src/app.py\<close> and
  \<^verbatim>\<open>src/individual_search.py\<close>: the candidate search
  (\<^verbatim>\<open>fetch_org_candidates\<close>), the facet helpers (\<^verbatim>\<open>with_all\<close>,
  \<^verbatim>\<open>apply_dropdown_filters\<close>), the yearly and year-to-date counts of
  \<^verbatim>\<open>render_org_insights\<close> and the pagination block of the search page.

  Python values are modelled as follows. A \<^verbatim>\<open>str\<close> is a \<^typ>\<open>string\<close> whose
  characters are read as code points below 256; a Python \<^verbatim>\<open>int\<close> is an \<^typ>\<open>int\<close>;
  a finite, non-NaN \<^verbatim>\<open>float\<close> is the \<^typ>\<open>real\<close> it denotes, which keeps every
  comparison the code makes. A raise is a result \<open>Inl e\<close>. The data store, pandas'
  column coercions and \<^verbatim>\<open>difflib\<close> are libraries outside the repository: they are
  parameters of the functions that call them.
\<close>

subsection \<open>Errors and JSON values\<close>

datatype error =
    ValueError
  | AttributeError
  | ZeroDivisionError
  | StoreError
  | StopExecution

text \<open>A cell of a row as the store's JSON answer holds it.\<close>

datatype jval = JNull | JBool bool | JInt int | JReal real | JStr string

text \<open>A row of the \<^verbatim>\<open>orgs\<close> table is a Python dict: keys in insertion order.\<close>

type_synonym row = "(string \<times> jval) list"

definition dict_get :: "row \<Rightarrow> string \<Rightarrow> jval" where
  \<comment> \<open>\<^verbatim>\<open>o.get(k)\<close>: a missing key gives \<^verbatim>\<open>None\<close>\<close>
  "dict_get r k = (case map_of r k of None \<Rightarrow> JNull | Some v \<Rightarrow> v)"

fun truthy :: "jval \<Rightarrow> bool" where
  "truthy JNull = False"
| "truthy (JBool b) = b"
| "truthy (JInt n) = (n \<noteq> 0)"
| "truthy (JReal x) = (x \<noteq> 0)"
| "truthy (JStr s) = (s \<noteq> [])"

subsection \<open>Strings\<close>

definition isspace :: "char \<Rightarrow> bool" where
  \<comment> \<open>\<^verbatim>\<open>str.isspace\<close> on the code points below 256\<close>
  "isspace c =
     (let n = (of_char c :: nat)
      in (9 \<le> n \<and> n \<le> 13) \<or> (28 \<le> n \<and> n \<le> 32) \<or> n = 133 \<or> n = 160)"

definition lstrip :: "string \<Rightarrow> string" where
  "lstrip s = dropWhile isspace s"

definition rstrip :: "string \<Rightarrow> string" where
  "rstrip s = rev (dropWhile isspace (rev s))"

definition strip :: "string \<Rightarrow> string" where
  \<comment> \<open>\<^verbatim>\<open>s.strip()\<close>\<close>
  "strip s = rstrip (lstrip s)"

definition lower_char :: "char \<Rightarrow> char" where
  "lower_char c =
     (let n = (of_char c :: nat)
      in if (65 \<le> n \<and> n \<le> 90) \<or> (192 \<le> n \<and> n \<le> 222 \<and> n \<noteq> 215)
         then char_of (n + 32) else c)"

definition lower :: "string \<Rightarrow> string" where
  \<comment> \<open>\<^verbatim>\<open>s.lower()\<close>\<close>
  "lower s = map lower_char s"

definition is_digit :: "char \<Rightarrow> bool" where
  "is_digit c = (let n = (of_char c :: nat) in 48 \<le> n \<and> n \<le> 57)"

definition digit_val :: "char \<Rightarrow> int" where
  "digit_val c = int (of_char c) - 48"

text \<open>
  The digits of a decimal literal: single underscores are allowed between digits only.
  The flag says whether the previous character was a digit.
\<close>

fun digits_of :: "bool \<Rightarrow> string \<Rightarrow> char list option" where
  "digits_of prev [] = (if prev then Some [] else None)"
| "digits_of prev (c # cs) =
     (if is_digit c then map_option (\<lambda>ds. c # ds) (digits_of True cs)
      else if c = CHR ''_'' \<and> prev then digits_of False cs
      else None)"

definition decimal :: "char list \<Rightarrow> int" where
  "decimal ds = foldl (\<lambda>acc c. 10 * acc + digit_val c) 0 ds"

definition max_str_digits :: nat where
  \<comment> \<open>CPython's default limit on the digits of a decimal string (3.11 onwards)\<close>
  "max_str_digits = 4300"

definition py_int :: "string \<Rightarrow> int option" where
  \<comment> \<open>the builtin \<^verbatim>\<open>int(s)\<close> on a \<^verbatim>\<open>str\<close>; \<open>None\<close> where it raises
      \<^verbatim>\<open>ValueError\<close>\<close>
  "py_int s =
     (let t = strip s;
          (neg, body) =
            (case t of
               [] \<Rightarrow> (False, [])
             | c # cs \<Rightarrow>
                 if c = CHR ''-'' then (True, cs)
                 else if c = CHR ''+'' then (False, cs)
                 else (False, t))
      in case digits_of False body of
           None \<Rightarrow> None
         | Some ds \<Rightarrow>
             if length ds > max_str_digits then None
             else Some (if neg then - decimal ds else decimal ds))"

definition is_int :: "string \<Rightarrow> bool" where
  \<comment> \<open>\<^verbatim>\<open>try: int(s); return True / except Exception: return False\<close>\<close>
  "is_int s = (py_int s \<noteq> None)"

definition similarity :: "(string \<Rightarrow> string \<Rightarrow> real) \<Rightarrow> string \<Rightarrow> string \<Rightarrow> real" where
  \<comment> \<open>\<^verbatim>\<open>SequenceMatcher(None, (a or "").lower(), (b or "").lower()).ratio()\<close>;
      \<open>ratio\<close> is the library's \<^verbatim>\<open>SequenceMatcher(None, x, y).ratio()\<close>\<close>
  "similarity ratio a b = ratio (lower a) (lower b)"

subsection \<open>The data store\<close>

text \<open>
  What the pages ask of the store. \<open>orgs_eq n\<close> is the select on \<^verbatim>\<open>orgs\<close> with
  \<^verbatim>\<open>.eq("organization_id", n)\<close>; \<open>orgs_ilike p k\<close> is the select with
  \<^verbatim>\<open>.ilike("organization_name", p).limit(k)\<close>. Either answers with the rows of
  \<^verbatim>\<open>res.data\<close> or raises.
\<close>

record store =
  orgs_eq :: "int \<Rightarrow> error + row list"
  orgs_ilike :: "string \<Rightarrow> nat \<Rightarrow> error + row list"

subsection \<open>Candidate search\<close>

definition name_or_empty :: "row \<Rightarrow> jval" where
  \<comment> \<open>\<^verbatim>\<open>o.get("organization_name") or ""\<close>\<close>
  "name_or_empty r =
     (let v = dict_get r ''organization_name'' in if truthy v then v else JStr [])"

definition rank_key :: "(string \<Rightarrow> string \<Rightarrow> real) \<Rightarrow> string \<Rightarrow> row \<Rightarrow> error + (real \<times> nat)" where
  \<comment> \<open>the \<^verbatim>\<open>key\<close> lambda of \<^verbatim>\<open>rows.sort\<close>; a name that is not a string has no
      \<^verbatim>\<open>lower\<close>\<close>
  "rank_key ratio query r =
     (case name_or_empty r of
        JStr s \<Rightarrow> Inr (- similarity ratio query s, length s)
      | _ \<Rightarrow> Inl AttributeError)"

definition org_name :: "row \<Rightarrow> string" where
  \<comment> \<open>the name the ranking reads, for a row whose name cell is text or null\<close>
  "org_name r = (case name_or_empty r of JStr s \<Rightarrow> s | _ \<Rightarrow> [])"

text \<open>
  \<^verbatim>\<open>list.sort(key=f)\<close> computes the key of every element first, then sorts the
  decorated list stably by the keys alone.
\<close>

fun decorate :: "('a \<Rightarrow> error + 'k) \<Rightarrow> 'a list \<Rightarrow> error + ('k \<times> 'a) list" where
  "decorate f [] = Inr []"
| "decorate f (x # xs) =
     (case f x of
        Inl e \<Rightarrow> Inl e
      | Inr k \<Rightarrow>
          (case decorate f xs of
             Inl e \<Rightarrow> Inl e
           | Inr ys \<Rightarrow> Inr ((k, x) # ys)))"

definition list_sort :: "('a \<Rightarrow> error + 'k::linorder) \<Rightarrow> 'a list \<Rightarrow> error + 'a list" where
  "list_sort f xs =
     (case decorate f xs of
        Inl e \<Rightarrow> Inl e
      | Inr ys \<Rightarrow> Inr (map snd (sort_key fst ys)))"

definition fetch_org_candidates ::
  "(string \<Rightarrow> string \<Rightarrow> real) \<Rightarrow> store \<Rightarrow> string \<Rightarrow> error + row list" where
  "fetch_org_candidates ratio st query0 =
     (let query = strip query0
      in if query = [] then Inr []
         else if is_int query then
           (case py_int query of
              None \<Rightarrow> Inl ValueError
            | Some n \<Rightarrow> orgs_eq st n)
         else
           (case orgs_ilike st (''%'' @ query @ ''%'') 200 of
              Inl e \<Rightarrow> Inl e
            | Inr rows \<Rightarrow> list_sort (rank_key ratio query) rows))"

subsection \<open>Dates\<close>

record date =
  year :: int
  month :: int
  day :: int

definition is_leap :: "int \<Rightarrow> bool" where
  "is_leap y = (y mod 4 = 0 \<and> (y mod 100 \<noteq> 0 \<or> y mod 400 = 0))"

definition days_in_month :: "int \<Rightarrow> int \<Rightarrow> int" where
  "days_in_month y m =
     (if m = 2 then (if is_leap y then 29 else 28)
      else if m = 4 \<or> m = 6 \<or> m = 9 \<or> m = 11 then 30
      else 31)"

definition valid_date :: "date \<Rightarrow> bool" where
  \<comment> \<open>the values a \<^verbatim>\<open>datetime.date\<close> can hold\<close>
  "valid_date d =
     (1 \<le> year d \<and> year d \<le> 9999 \<and> 1 \<le> month d \<and> month d \<le> 12 \<and>
      1 \<le> day d \<and> day d \<le> days_in_month (year d) (month d))"

definition mk_date :: "int \<Rightarrow> int \<Rightarrow> int \<Rightarrow> error + date" where
  \<comment> \<open>the constructor \<^verbatim>\<open>date(y, m, d)\<close>, which raises \<^verbatim>\<open>ValueError\<close> on a day
      that the calendar does not have\<close>
  "mk_date y m d =
     (if 1 \<le> y \<and> y \<le> 9999 \<and> 1 \<le> m \<and> m \<le> 12 \<and> 1 \<le> d \<and> d \<le> days_in_month y m
      then Inr \<lparr>year = y, month = m, day = d\<rparr>
      else Inl ValueError)"

definition date_le :: "date \<Rightarrow> date \<Rightarrow> bool" where
  \<comment> \<open>\<^verbatim>\<open>a <= b\<close> on dates\<close>
  "date_le a b =
     (year a < year b \<or>
      (year a = year b \<and> (month a < month b \<or> (month a = month b \<and> day a \<le> day b))))"

subsection \<open>Request rows and the facet helpers\<close>

text \<open>
  A row of the request table, with the columns the pages compute with. The two type
  parameters are the cell types of the year column and of the two date columns: JSON
  values as fetched, numbers and dates once coerced.
\<close>

record ('y, 'd) request =
  team_name :: "string option"
  registration_status :: "string option"
  event_name :: "string option"
  start_date_calendar_year :: 'y
  start_date :: 'd
  date_requested :: 'd

type_synonym raw_request = "(jval, jval) request"
type_synonym coerced_request = "(real option, date option) request"

definition coerce_row ::
  "(jval \<Rightarrow> real option) \<Rightarrow> (jval list \<Rightarrow> jval \<Rightarrow> date option) \<Rightarrow>
   raw_request list \<Rightarrow> raw_request \<Rightarrow> coerced_request" where
  \<comment> \<open>what the three column assignments with \<^verbatim>\<open>errors="coerce"\<close> make of one row of
      \<open>data\<close>: \<open>to_numeric v\<close> is the cell \<^verbatim>\<open>pd.to_numeric\<close> gives for \<open>v\<close>,
      \<open>to_datetime col v\<close> the cell \<^verbatim>\<open>pd.to_datetime(col).dt.date\<close> gives for \<open>v\<close> in the
      column \<open>col\<close>; \<open>None\<close> is the missing value\<close>
  "coerce_row to_numeric to_datetime data r =
     \<lparr>team_name = team_name r,
      registration_status = registration_status r,
      event_name = event_name r,
      start_date_calendar_year = to_numeric (start_date_calendar_year r),
      start_date = to_datetime (map start_date data) (start_date r),
      date_requested = to_datetime (map date_requested data) (date_requested r)\<rparr>"

definition coerce ::
  "(jval \<Rightarrow> real option) \<Rightarrow> (jval list \<Rightarrow> jval \<Rightarrow> date option) \<Rightarrow>
   raw_request list \<Rightarrow> coerced_request list" where
  "coerce to_numeric to_datetime data = map (coerce_row to_numeric to_datetime data) data"

definition dropna :: "'a option list \<Rightarrow> 'a option list" where
  "dropna xs = filter (\<lambda>x. x \<noteq> None) xs"

fun unique :: "'a list \<Rightarrow> 'a list" where
  \<comment> \<open>\<^verbatim>\<open>Series.unique()\<close>: the distinct values in order of first appearance\<close>
  "unique [] = []"
| "unique (x # xs) = x # unique (filter (\<lambda>y. y \<noteq> x) xs)"

definition with_all :: "string option list \<Rightarrow> string list" where
  "with_all options =
     (let opts = sort (map the (filter (\<lambda>x. x \<notin> {None, Some [], Some ''nan''}) options))
      in ''All'' # opts)"

definition apply_dropdown_filters ::
  "('y, 'd) request list \<Rightarrow> string \<Rightarrow> string \<Rightarrow> ('y, 'd) request list" where
  "apply_dropdown_filters d status_choice event_choice =
     (let out = d;
          out = (if status_choice \<noteq> ''All''
                 then filter (\<lambda>r. registration_status r = Some status_choice) out else out);
          out = (if event_choice \<noteq> ''All''
                 then filter (\<lambda>r. event_name r = Some event_choice) out else out)
      in out)"

subsection \<open>Insights of an organisation\<close>

definition by_year :: "coerced_request list \<Rightarrow> real \<Rightarrow> coerced_request list" where
  \<comment> \<open>\<^verbatim>\<open>df[df["start_date_calendar_year"] == y]\<close>; a missing year equals nothing\<close>
  "by_year df y = filter (\<lambda>r. start_date_calendar_year r = Some y) df"

definition upto_date :: "coerced_request list \<Rightarrow> date \<Rightarrow> coerced_request list" where
  \<comment> \<open>\<^verbatim>\<open>d[d["date_requested"].notna() & (d["date_requested"] <= cutoff)]\<close>\<close>
  "upto_date d cutoff =
     filter (\<lambda>r. date_requested r \<noteq> None \<and>
                  (case date_requested r of None \<Rightarrow> False | Some x \<Rightarrow> date_le x cutoff)) d"

record metrics =
  df_2025 :: "coerced_request list"
  df_2026 :: "coerced_request list"
  count_2025 :: int
  count_2026 :: int
  yoy_delta :: int
  cutoff_2025 :: date
  df_2025_ytd :: "coerced_request list"
  df_2026_ytd :: "coerced_request list"
  ytd_delta :: int

definition aggregate :: "date \<Rightarrow> coerced_request list \<Rightarrow> error + metrics" where
  \<comment> \<open>the counting part of \<^verbatim>\<open>render_org_insights\<close> in \<^verbatim>\<open>app.py\<close>, from
      \<^verbatim>\<open>df_2025 = ...\<close> to \<^verbatim>\<open>ytd_delta = ...\<close>; \<open>today\<close> is \<^verbatim>\<open>date.today()\<close>\<close>
  "aggregate today df =
     (let d25 = by_year df 2025;
          d26 = by_year df 2026;
          c25 = int (length d25);
          c26 = int (length d26);
          yoy = c26 - c25
      in case mk_date 2025 (month today) (day today) of
           Inl e \<Rightarrow> Inl e
         | Inr cutoff \<Rightarrow>
             let y25 = upto_date d25 cutoff;
                 y26 = upto_date d26 today;
                 ytd = int (length y26) - int (length y25)
             in Inr \<lparr>df_2025 = d25, df_2026 = d26, count_2025 = c25, count_2026 = c26,
                      yoy_delta = yoy, cutoff_2025 = cutoff, df_2025_ytd = y25,
                      df_2026_ytd = y26, ytd_delta = ytd\<rparr>)"

record insights =
  status_options :: "string list"
  event_options :: "string list"
  df_all :: "coerced_request list"
  counts :: metrics

definition app_render_org_insights ::
  "(jval \<Rightarrow> real option) \<Rightarrow> (jval list \<Rightarrow> jval \<Rightarrow> date option) \<Rightarrow> date \<Rightarrow>
   raw_request list \<Rightarrow> string \<Rightarrow> string \<Rightarrow> error + insights" where
  \<comment> \<open>\<^verbatim>\<open>render_org_insights\<close> of \<^verbatim>\<open>app.py\<close>: \<open>data\<close> is the answer of
      \<^verbatim>\<open>get_requests_for_org\<close>, the two choices are what the select boxes return;
      an empty frame stops the script\<close>
  "app_render_org_insights to_numeric to_datetime today data status_choice event_choice =
     (if data = [] then Inl StopExecution
      else
        let df = coerce to_numeric to_datetime data;
            status_opts = with_all (unique (dropna (map registration_status df)));
            event_opts = with_all (unique (dropna (map event_name df)));
            df = apply_dropdown_filters df status_choice event_choice
        in case aggregate today df of
             Inl e \<Rightarrow> Inl e
           | Inr m \<Rightarrow>
               Inr \<lparr>status_options = status_opts, event_options = event_opts,
                    df_all = df, counts = m\<rparr>)"

record search_insights =
  s_status_options :: "string list"
  s_event_options :: "string list"
  s_df :: "coerced_request list"
  s_count_2025 :: int
  s_count_2026 :: int
  s_delta :: int

definition search_render_org_insights ::
  "(jval \<Rightarrow> real option) \<Rightarrow> (jval list \<Rightarrow> jval \<Rightarrow> date option) \<Rightarrow>
   raw_request list \<Rightarrow> string \<Rightarrow> string \<Rightarrow> error + search_insights" where
  \<comment> \<open>\<^verbatim>\<open>render_org_insights\<close> of \<^verbatim>\<open>individual_search.py\<close>\<close>
  "search_render_org_insights to_numeric to_datetime data status_choice event_choice =
     (if data = [] then Inl StopExecution
      else
        let df = coerce to_numeric to_datetime data;
            status_opts = with_all (unique (dropna (map registration_status df)));
            event_opts = with_all (unique (dropna (map event_name df)));
            df = apply_dropdown_filters df status_choice event_choice;
            d25 = by_year df 2025;
            d26 = by_year df 2026
        in Inr \<lparr>s_status_options = status_opts, s_event_options = event_opts, s_df = df,
                 s_count_2025 = int (length d25), s_count_2026 = int (length d26),
                 s_delta = int (length d26) - int (length d25)\<rparr>)"

subsection \<open>Pagination of the search results\<close>

definition PAGE_SIZE :: int where
  "PAGE_SIZE = 10"

definition py_slice :: "'a list \<Rightarrow> int \<Rightarrow> int \<Rightarrow> 'a list" where
  \<comment> \<open>\<^verbatim>\<open>xs[s:e]\<close>: a negative bound counts from the end, and both are clamped\<close>
  "py_slice xs s e =
     (let n = int (length xs);
          s' = (if s < 0 then max (s + n) 0 else min s n);
          e' = (if e < 0 then max (e + n) 0 else min e n)
      in take (nat (e' - s')) (drop (nat s') xs))"

record 'a page_view =
  pv_total :: int
  pv_total_pages :: int
  pv_page :: int
  pv_start :: int
  pv_end :: int
  pv_page_rows :: "'a list"

definition paginate_with :: "int \<Rightarrow> 'a list \<Rightarrow> int \<Rightarrow> error + 'a page_view" where
  \<comment> \<open>the block after the two \<^verbatim>\<open>st.stop()\<close> guards, for a page size \<open>ps\<close>;
      \<^verbatim>\<open>//\<close> raises on a zero divisor\<close>
  "paginate_with ps results page0 =
     (if ps = 0 then Inl ZeroDivisionError
      else
        let total = int (length results);
            total_pages = max 1 ((total + ps - 1) div ps);
            page = max 0 (min page0 (total_pages - 1));
            start = page * ps;
            end' = min (start + ps) total
        in Inr \<lparr>pv_total = total, pv_total_pages = total_pages, pv_page = page,
                 pv_start = start, pv_end = end', pv_page_rows = py_slice results start end'\<rparr>)"

definition paginate :: "'a list \<Rightarrow> int \<Rightarrow> error + 'a page_view" where
  \<comment> \<open>the block as the page runs it; it is reached with a non-empty \<open>results\<close> only\<close>
  "paginate results page0 = paginate_with PAGE_SIZE results page0"

subsection \<open>Notions used in the statements\<close>

definition has_text_name :: "row \<Rightarrow> bool" where
  \<comment> \<open>the name cell of the row is text or counts as empty: the ranking can read it\<close>
  "has_text_name r = (case name_or_empty r of JStr s \<Rightarrow> True | _ \<Rightarrow> False)"

definition sort_pair :: "(string \<Rightarrow> string \<Rightarrow> real) \<Rightarrow> string \<Rightarrow> row \<Rightarrow> real \<times> nat" where
  \<comment> \<open>the pair the ranking sorts by: the negated similarity, then the length of the name\<close>
  "sort_pair ratio query r = (- similarity ratio query (org_name r), length (org_name r))"

definition passes :: "string \<Rightarrow> string \<Rightarrow> ('y, 'd) request \<Rightarrow> bool" where
  \<comment> \<open>a row meets the two choices: a choice of \<^verbatim>\<open>"All"\<close> asks nothing, any other choice
      asks for that very value\<close>
  "passes status_choice event_choice r =
     ((status_choice = ''All'' \<or> registration_status r = Some status_choice) \<and>
      (event_choice = ''All'' \<or> event_name r = Some event_choice))"

definition spec_facet_options :: "string option list \<Rightarrow> string list" where
  \<comment> \<open>the option list in the specification's words: the distinct non-null, non-empty
      values of the column, sorted ascending, after \<^verbatim>\<open>"All"\<close>\<close>
  "spec_facet_options col =
     ''All'' # sort (remdups (filter (\<lambda>v. v \<noteq> []) (map the (filter (\<lambda>x. x \<noteq> None) col))))"

subsection \<open>Concrete inputs\<close>

text \<open>
  Instances of the library parameters, to run the definitions on concrete inputs. They
  stand in for the libraries on the inputs used below and are no model of them beyond
  that: \<open>prefix_ratio\<close> is twice the length of the common prefix over the total length,
  \<open>json_number\<close> reads JSON numbers and decimal strings, \<open>iso_date\<close> reads
  \<^verbatim>\<open>YYYY-MM-DD\<close>.
\<close>

definition prefix_ratio :: "string \<Rightarrow> string \<Rightarrow> real" where
  "prefix_ratio a b =
     (if a = [] \<and> b = [] then 1
      else 2 * real (length (takeWhile (\<lambda>(x, y). x = y) (zip a b))) / real (length a + length b))"

fun json_number :: "jval \<Rightarrow> real option" where
  "json_number (JInt n) = Some (real_of_int n)"
| "json_number (JReal x) = Some x"
| "json_number (JBool b) = Some (if b then 1 else 0)"
| "json_number (JStr s) = map_option real_of_int (py_int s)"
| "json_number JNull = None"

definition iso_date :: "jval list \<Rightarrow> jval \<Rightarrow> date option" where
  "iso_date col v =
     (case v of
        JStr s \<Rightarrow>
          (if length s = 10 \<and> s ! 4 = CHR ''-'' \<and> s ! 7 = CHR ''-'' \<and>
              list_all is_digit (take 4 s @ take 2 (drop 5 s) @ drop 8 s)
           then (case mk_date (decimal (take 4 s)) (decimal (take 2 (drop 5 s))) (decimal (drop 8 s)) of
                   Inl e \<Rightarrow> None
                 | Inr d \<Rightarrow> Some d)
           else None)
      | _ \<Rightarrow> None)"

definition org_row :: "int \<Rightarrow> string \<Rightarrow> row" where
  "org_row n name =
     [(''organization_id'', JInt n), (''organization_name'', JStr name),
      (''org_city'', JStr ''Raleigh''), (''org_state'', JStr ''NC'')]"

definition demo_store :: "row list \<Rightarrow> store" where
  \<comment> \<open>a store that holds the rows \<open>tbl\<close> and answers the name search with all of them\<close>
  "demo_store tbl =
     \<lparr>orgs_eq = (\<lambda>n. Inr (filter (\<lambda>r. dict_get r ''organization_id'' = JInt n) tbl)),
      orgs_ilike = (\<lambda>p k. Inr (take k tbl))\<rparr>"

definition down_store :: store where
  \<comment> \<open>a store that cannot be reached\<close>
  "down_store = \<lparr>orgs_eq = (\<lambda>n. Inl StoreError), orgs_ilike = (\<lambda>p k. Inl StoreError)\<rparr>"

definition req :: "string \<Rightarrow> string \<Rightarrow> jval \<Rightarrow> jval \<Rightarrow> raw_request" where
  "req status event yr requested =
     \<lparr>team_name = Some ''12U'', registration_status = Some status, event_name = Some event,
      start_date_calendar_year = yr, start_date = JNull, date_requested = requested\<rparr>"

definition creq :: "real option \<Rightarrow> date option \<Rightarrow> coerced_request" where
  "creq yr requested =
     \<lparr>team_name = Some ''12U'', registration_status = Some ''approved'',
      event_name = Some ''Summer Classic'', start_date_calendar_year = yr,
      start_date = None, date_requested = requested\<rparr>"

text \<open>The three requests of the end-to-end scenario, already coerced.\<close>

definition scenario :: "coerced_request list" where
  "scenario =
     [creq (Some 2025) (Some \<lparr>year = 2025, month = 3, day = 1\<rparr>),
      creq (Some 2025) (Some \<lparr>year = 2025, month = 8, day = 1\<rparr>),
      creq (Some 2026) (Some \<lparr>year = 2026, month = 3, day = 1\<rparr>)]"

definition nan_data :: "raw_request list" where
  "nan_data = [req ''nan'' ''Summer Classic'' (JInt 2025) JNull]"

definition demo_data :: "raw_request list" where
  "demo_data =
     [req ''pending'' ''Summer Classic'' (JInt 2025) (JStr ''2025-03-01''),
      req ''nan'' ''Fall Open'' (JStr ''n/a'') (JStr ''2025-08-01''),
      req ''approved'' ''Summer Classic'' (JInt 2026) (JStr ''2026-03-01''),
      req ''All'' ''Fall Open'' (JInt 2026) JNull]"

definition bad_row :: raw_request where
  "bad_row = req ''nan'' ''Fall Open'' (JStr ''n/a'') (JStr ''2025-08-01'')"

definition canes_rows :: "row list" where
  "canes_rows = [org_row 2 ''Canes Baseball'', org_row 1 ''Canes'']"

definition twins :: "row list" where
  \<comment> \<open>two organisations of one name\<close>
  "twins = [org_row 1 ''Canes'', org_row 2 ''Canes'']"

definition seven_rows :: "row list" where
  \<comment> \<open>a table with one organisation, of identifier 7\<close>
  "seven_rows = [org_row 7 ''Canes'']"

section \<open>Properties\<close>

subsection \<open>Blank queries\<close>

lemma strip_blank:
  assumes "\<forall>c\<in>set s. isspace c"
  shows "strip s = []"
proof -
  from assms have h: "dropWhile isspace s = []" by simp
  show ?thesis unfolding strip_def lstrip_def rstrip_def by (simp add: h)
qed

lemma isspace_space: "isspace CHR '' ''"
  by (simp add: isspace_def)

text \<open>
  Claim C5. A query that is empty or made of whitespace only gives the empty list of
  candidates and no error, whatever the store does (the store is not asked); so do the
  queries \<^verbatim>\<open>""\<close> and \<^verbatim>\<open>"   "\<close>.
\<close>

theorem fetch_org_candidates_blank:
  "((\<forall>c\<in>set query. isspace c) \<longrightarrow> fetch_org_candidates ratio st query = Inr []) \<and>
   fetch_org_candidates ratio st '''' = Inr [] \<and>
   fetch_org_candidates ratio st ''   '' = Inr []"
  by (simp add: fetch_org_candidates_def strip_blank isspace_space)

theorem fetch_org_candidates_blank_witness:
  "list_all isspace ''   '' \<and>
   fetch_org_candidates prefix_ratio down_store ''   '' = Inr []"
  using fetch_org_candidates_blank [of "''   ''" prefix_ratio down_store]
  by (simp add: isspace_space)

subsection \<open>The cutoff of the prior year\<close>

lemma mk_date_feb29: "mk_date 2025 2 29 = Inl ValueError"
  by (simp add: mk_date_def days_in_month_def is_leap_def)

lemma mk_date_2025:
  assumes "valid_date today" "\<not> (month today = 2 \<and> day today = 29)"
  shows "mk_date 2025 (month today) (day today) =
         Inr \<lparr>year = 2025, month = month today, day = day today\<rparr>"
  using assms
  by (auto simp add: mk_date_def valid_date_def days_in_month_def is_leap_def
      split: if_splits)

text \<open>
  Claim C1. On a 29 February the cutoff of 2025 is built as
  \<^verbatim>\<open>date(2025, 2, 29)\<close>, a day that 2025 does not have: the constructor raises
  \<^verbatim>\<open>ValueError\<close> and the counting fails with it, and so does the page for every
  organisation that has a request. There is no fallback to 28 February.
\<close>

theorem aggregate_leap_day:
  assumes "valid_date today" "month today = 2" "day today = 29"
  shows "aggregate today df = Inl ValueError \<and>
     (data \<noteq> [] \<longrightarrow>
        app_render_org_insights to_numeric to_datetime today data status_choice event_choice =
          Inl ValueError)"
  using assms
  by (simp add: app_render_org_insights_def aggregate_def mk_date_feb29 Let_def)

theorem aggregate_leap_day_witness:
  "valid_date \<lparr>year = 2028, month = 2, day = 29\<rparr> \<and>
   aggregate \<lparr>year = 2028, month = 2, day = 29\<rparr>
     [creq (Some 2025) (Some \<lparr>year = 2025, month = 2, day = 10\<rparr>)] = Inl ValueError \<and>
   app_render_org_insights json_number iso_date \<lparr>year = 2028, month = 2, day = 29\<rparr>
     demo_data ''All'' ''All'' = Inl ValueError"
proof -
  have v: "valid_date \<lparr>year = 2028, month = 2, day = 29\<rparr>"
    by (simp add: valid_date_def days_in_month_def is_leap_def)
  have d: "demo_data \<noteq> []" by (simp add: demo_data_def)
  from aggregate_leap_day [OF v, where data = demo_data] v d show ?thesis by simp
qed

subsection \<open>Yearly and year-to-date counts\<close>

lemma upto_date_by_year:
  "upto_date (by_year df y) c =
     filter (\<lambda>r. start_date_calendar_year r = Some y \<and>
                  (\<exists>d. date_requested r = Some d \<and> date_le d c)) df"
  by (induction df) (auto simp add: upto_date_def by_year_def split: option.splits)

lemma aggregate_ok:
  assumes "mk_date 2025 (month today) (day today) = Inr c"
  shows "aggregate today rs =
     Inr \<lparr>df_2025 = by_year rs 2025, df_2026 = by_year rs 2026,
          count_2025 = int (length (by_year rs 2025)),
          count_2026 = int (length (by_year rs 2026)),
          yoy_delta = int (length (by_year rs 2026)) - int (length (by_year rs 2025)),
          cutoff_2025 = c,
          df_2025_ytd = upto_date (by_year rs 2025) c,
          df_2026_ytd = upto_date (by_year rs 2026) today,
          ytd_delta = int (length (upto_date (by_year rs 2026) today)) -
                      int (length (upto_date (by_year rs 2025) c))\<rparr>"
  using assms by (simp add: aggregate_def Let_def)

lemma scenario_counts:
  "\<exists>m. aggregate \<lparr>year = 2026, month = 3, day = 15\<rparr> scenario = Inr m \<and>
      count_2025 m = 2 \<and> length (df_2025_ytd m) = 1 \<and>
      cutoff_2025 m = \<lparr>year = 2025, month = 3, day = 15\<rparr> \<and>
      count_2026 m = 1 \<and> length (df_2026_ytd m) = 1 \<and>
      yoy_delta m = - 1 \<and> ytd_delta m = 0"
  by (simp add: aggregate_def Let_def mk_date_def days_in_month_def scenario_def creq_def
      by_year_def upto_date_def date_le_def)

text \<open>
  Claim C2. On every day for which \<^verbatim>\<open>date(2025, today.month, today.day)\<close> exists,
  that is every day but a 29 February, the counting returns, and for the requests \<open>rs\<close>
  it is given: the full-year count of 2025 (of 2026) is the number of requests whose year
  is 2025 (2026), whatever their request date; the year-to-date rows of 2025 are the
  requests of 2025 with a request date that is present and not after the cutoff, the same
  month and day in 2025; those of 2026 are the requests of 2026 with a request date that
  is present and not after today; the two deltas are the differences 2026 minus 2025.
  For the scenario of three requests and today 2026-03-15 the counts are 2, 1, 1, 1 and
  the deltas \<open>-1\<close> and \<open>0\<close>.
\<close>

theorem aggregate_counts:
  "(valid_date today \<and> (month today, day today) \<noteq> (2, 29) \<longrightarrow>
     (\<exists>m. aggregate today rs = Inr m \<and>
        count_2025 m = int (length (filter (\<lambda>r. start_date_calendar_year r = Some 2025) rs)) \<and>
        count_2026 m = int (length (filter (\<lambda>r. start_date_calendar_year r = Some 2026) rs)) \<and>
        cutoff_2025 m = \<lparr>year = 2025, month = month today, day = day today\<rparr> \<and>
        df_2025_ytd m =
          filter (\<lambda>r. start_date_calendar_year r = Some 2025 \<and>
                       (\<exists>d. date_requested r = Some d \<and> date_le d (cutoff_2025 m))) rs \<and>
        df_2026_ytd m =
          filter (\<lambda>r. start_date_calendar_year r = Some 2026 \<and>
                       (\<exists>d. date_requested r = Some d \<and> date_le d today)) rs \<and>
        yoy_delta m = count_2026 m - count_2025 m \<and>
        ytd_delta m = int (length (df_2026_ytd m)) - int (length (df_2025_ytd m)))) \<and>
   (\<exists>m. aggregate \<lparr>year = 2026, month = 3, day = 15\<rparr> scenario = Inr m \<and>
      count_2025 m = 2 \<and> length (df_2025_ytd m) = 1 \<and>
      cutoff_2025 m = \<lparr>year = 2025, month = 3, day = 15\<rparr> \<and>
      count_2026 m = 1 \<and> length (df_2026_ytd m) = 1 \<and>
      yoy_delta m = - 1 \<and> ytd_delta m = 0)"
proof (intro conjI impI)
  assume a: "valid_date today \<and> (month today, day today) \<noteq> (2, 29)"
  then have c: "mk_date 2025 (month today) (day today) =
      Inr \<lparr>year = 2025, month = month today, day = day today\<rparr>"
    by (intro mk_date_2025) auto
  show "\<exists>m. aggregate today rs = Inr m \<and>
        count_2025 m = int (length (filter (\<lambda>r. start_date_calendar_year r = Some 2025) rs)) \<and>
        count_2026 m = int (length (filter (\<lambda>r. start_date_calendar_year r = Some 2026) rs)) \<and>
        cutoff_2025 m = \<lparr>year = 2025, month = month today, day = day today\<rparr> \<and>
        df_2025_ytd m =
          filter (\<lambda>r. start_date_calendar_year r = Some 2025 \<and>
                       (\<exists>d. date_requested r = Some d \<and> date_le d (cutoff_2025 m))) rs \<and>
        df_2026_ytd m =
          filter (\<lambda>r. start_date_calendar_year r = Some 2026 \<and>
                       (\<exists>d. date_requested r = Some d \<and> date_le d today)) rs \<and>
        yoy_delta m = count_2026 m - count_2025 m \<and>
        ytd_delta m = int (length (df_2026_ytd m)) - int (length (df_2025_ytd m))"
    by (simp add: aggregate_ok [OF c] upto_date_by_year) (simp add: by_year_def)
next
  show "\<exists>m. aggregate \<lparr>year = 2026, month = 3, day = 15\<rparr> scenario = Inr m \<and>
      count_2025 m = 2 \<and> length (df_2025_ytd m) = 1 \<and>
      cutoff_2025 m = \<lparr>year = 2025, month = 3, day = 15\<rparr> \<and>
      count_2026 m = 1 \<and> length (df_2026_ytd m) = 1 \<and>
      yoy_delta m = - 1 \<and> ytd_delta m = 0"
    by (rule scenario_counts)
qed

lemma valid_20260315: "valid_date \<lparr>year = 2026, month = 3, day = 15\<rparr>"
  by (simp add: valid_date_def days_in_month_def)

theorem aggregate_counts_witness:
  "valid_date \<lparr>year = 2026, month = 3, day = 15\<rparr> \<and>
   (\<exists>m. aggregate \<lparr>year = 2026, month = 3, day = 15\<rparr> scenario = Inr m \<and>
        count_2025 m = 2 \<and> count_2026 m = 1 \<and> yoy_delta m = - 1 \<and>
        length (df_2025_ytd m) = 1 \<and> length (df_2026_ytd m) = 1 \<and> ytd_delta m = 0)"
  using aggregate_counts [of "\<lparr>year = 2026, month = 3, day = 15\<rparr>" scenario] valid_20260315
  by (auto simp add: scenario_def creq_def date_le_def)

subsection \<open>Pagination\<close>

lemma ceil_div:
  fixes n ps :: int
  assumes "0 < ps"
  shows "\<lceil>real_of_int n / real_of_int ps\<rceil> = (n + ps - 1) div ps"
proof (rule ceiling_unique)
  define z where "z = (n + ps - 1) div ps"
  have eq: "ps * z + (n + ps - 1) mod ps = n + ps - 1"
    unfolding z_def by (rule mult_div_mod_eq)
  have lo: "0 \<le> (n + ps - 1) mod ps" using assms by simp
  have hi: "(n + ps - 1) mod ps < ps" using assms by simp
  have 1: "(z - 1) * ps < n" using eq lo by (simp add: algebra_simps)
  have 2: "n \<le> z * ps" using eq hi by (simp add: algebra_simps)
  have p: "0 < real_of_int ps" using assms by simp
  from 1 have "real_of_int ((z - 1) * ps) < real_of_int n" by (simp only: of_int_less_iff)
  then have "(real_of_int z - 1) * real_of_int ps < real_of_int n" by simp
  then show "real_of_int ((n + ps - 1) div ps) - 1 < real_of_int n / real_of_int ps"
    using p unfolding z_def [symmetric] by (simp add: pos_less_divide_eq)
  from 2 have "real_of_int n \<le> real_of_int (z * ps)" by (simp only: of_int_le_iff)
  then have "real_of_int n \<le> real_of_int z * real_of_int ps" by simp
  then show "real_of_int n / real_of_int ps \<le> real_of_int ((n + ps - 1) div ps)"
    using p unfolding z_def [symmetric] by (simp add: pos_divide_le_eq)
qed

lemma page_start_le:
  fixes n ps p :: int
  assumes "0 < ps" "0 \<le> n" "0 \<le> p" "p \<le> max 1 ((n + ps - 1) div ps) - 1"
  shows "p * ps \<le> n"
proof (cases "1 \<le> (n + ps - 1) div ps")
  case True
  define z where "z = (n + ps - 1) div ps"
  have eq: "ps * z + (n + ps - 1) mod ps = n + ps - 1"
    unfolding z_def by (rule mult_div_mod_eq)
  have lo: "0 \<le> (n + ps - 1) mod ps" using assms by simp
  have "(z - 1) * ps \<le> n" using eq lo by (simp add: algebra_simps)
  moreover have "p \<le> z - 1" using assms True by (simp add: z_def)
  then have "p * ps \<le> (z - 1) * ps" using assms by (intro mult_right_mono) auto
  ultimately show ?thesis by simp
next
  case False
  with assms have "p = 0" by simp
  with assms show ?thesis by simp
qed

lemma py_slice_take_drop:
  assumes "0 \<le> s" "s \<le> int (length xs)" "e \<le> int (length xs)" "0 \<le> e"
  shows "py_slice xs s e = take (nat (e - s)) (drop (nat s) xs)"
  using assms by (simp add: py_slice_def Let_def min_def)

lemma py_slice_20_23:
  assumes "length items = 23"
  shows "py_slice items 20 23 = drop 20 items"
proof -
  have "py_slice items 20 23 = take (nat (23 - 20)) (drop (nat 20) items)"
    using assms by (simp add: py_slice_def)
  also have "\<dots> = drop 20 items" using assms by simp
  finally show ?thesis .
qed

lemma paginate_23_pre:
  assumes "length items = 23"
  shows "paginate items 5 =
     Inr \<lparr>pv_total = 23, pv_total_pages = 3, pv_page = 2, pv_start = 20, pv_end = 23,
          pv_page_rows = py_slice items 20 23\<rparr>"
  using assms by (simp add: paginate_def paginate_with_def PAGE_SIZE_def Let_def)

lemma last_three: "drop 20 [1 ..< 24 :: nat] = [21, 22, 23]"
proof -
  have "drop 20 [1 ..< 24 :: nat] = [21 ..< 24]" by (simp add: drop_upt)
  also have "\<dots> = [21, 22, 23]" by (simp add: upt_rec)
  finally show ?thesis .
qed

lemma paginate_example:
  "\<exists>v. paginate [1 ..< 24 :: nat] 5 = Inr v \<and>
        pv_page v = 2 \<and> pv_total_pages v = 3 \<and> pv_page_rows v = [21, 22, 23]"
proof -
  have l: "length [1 ..< 24 :: nat] = 23" by simp
  show ?thesis
    unfolding paginate_23_pre [OF l] py_slice_20_23 [OF l] last_three by simp
qed

text \<open>
  Claim C6. For every list of items, every page size above zero and every requested page,
  negative or past the end, the pagination returns: the number of pages is the larger of
  1 and the ceiling of the length over the page size, the page is the requested page
  clamped into the range from 0 to the last page, and the rows are the slice of the items
  from page times page size up to the smaller of the length and the next multiple. With
  the page size 10 of the search page, 23 items and requested page 5 it shows page 2 of 3
  and the last three items.
\<close>

theorem paginate_with_spec:
  "(0 < ps \<longrightarrow>
     (\<exists>v. paginate_with ps items p = Inr v \<and>
        pv_total_pages v = max 1 \<lceil>real (length items) / real_of_int ps\<rceil> \<and>
        0 \<le> pv_page v \<and> pv_page v \<le> pv_total_pages v - 1 \<and>
        pv_page v = (if p < 0 then 0
                     else if pv_total_pages v - 1 < p then pv_total_pages v - 1 else p) \<and>
        pv_page_rows v =
          py_slice items (pv_page v * ps) (min (int (length items)) ((pv_page v + 1) * ps)) \<and>
        pv_page_rows v =
          take (nat (min (int (length items)) ((pv_page v + 1) * ps) - pv_page v * ps))
            (drop (nat (pv_page v * ps)) items))) \<and>
   (\<exists>v. paginate [1 ..< 24 :: nat] 5 = Inr v \<and>
        pv_page v = 2 \<and> pv_total_pages v = 3 \<and> pv_page_rows v = [21, 22, 23])"
proof (intro conjI impI)
  assume ps: "0 < ps"
  define n where "n = int (length items)"
  define tp where "tp = max 1 ((n + ps - 1) div ps)"
  define pg where "pg = max 0 (min p (tp - 1))"
  define e where "e = min (pg * ps + ps) n"
  have v: "paginate_with ps items p =
      Inr \<lparr>pv_total = n, pv_total_pages = tp, pv_page = pg, pv_start = pg * ps,
           pv_end = e, pv_page_rows = py_slice items (pg * ps) e\<rparr>"
    using ps by (simp add: paginate_with_def Let_def n_def tp_def pg_def e_def)
  have tp1: "1 \<le> tp" by (simp add: tp_def)
  have ceil: "tp = max 1 \<lceil>real (length items) / real_of_int ps\<rceil>"
    using ceil_div [OF ps, of n] by (simp add: tp_def n_def)
  have pg0: "0 \<le> pg" by (simp add: pg_def)
  have pg1: "pg \<le> tp - 1" using tp1 by (simp add: pg_def)
  have pgc: "pg = (if p < 0 then 0 else if tp - 1 < p then tp - 1 else p)"
    using tp1 by (simp add: pg_def max_def min_def)
  have s_le: "pg * ps \<le> n"
    using page_start_le [OF ps _ pg0, of n] pg1 by (simp add: tp_def n_def)
  have e_eq: "e = min n ((pg + 1) * ps)" by (simp add: e_def algebra_simps min.commute)
  have s0: "0 \<le> pg * ps" using pg0 ps by simp
  have e0: "0 \<le> e" using s0 ps by (simp add: e_def n_def)
  have en: "e \<le> n" by (simp add: e_def)
  have sl: "py_slice items (pg * ps) e = take (nat (e - pg * ps)) (drop (nat (pg * ps)) items)"
    using s0 s_le en e0 by (intro py_slice_take_drop) (simp_all add: n_def)
  show "\<exists>v. paginate_with ps items p = Inr v \<and>
        pv_total_pages v = max 1 \<lceil>real (length items) / real_of_int ps\<rceil> \<and>
        0 \<le> pv_page v \<and> pv_page v \<le> pv_total_pages v - 1 \<and>
        pv_page v = (if p < 0 then 0
                     else if pv_total_pages v - 1 < p then pv_total_pages v - 1 else p) \<and>
        pv_page_rows v =
          py_slice items (pv_page v * ps) (min (int (length items)) ((pv_page v + 1) * ps)) \<and>
        pv_page_rows v =
          take (nat (min (int (length items)) ((pv_page v + 1) * ps) - pv_page v * ps))
            (drop (nat (pv_page v * ps)) items)"
  proof (intro exI conjI)
    show "paginate_with ps items p =
      Inr \<lparr>pv_total = n, pv_total_pages = tp, pv_page = pg, pv_start = pg * ps,
           pv_end = e, pv_page_rows = py_slice items (pg * ps) e\<rparr>" by (rule v)
  qed (simp_all only: page_view.simps ceil [symmetric] pg0 pg1 pgc [symmetric] sl
         e_eq [symmetric] n_def [symmetric])
next
  show "\<exists>v. paginate [1 ..< 24 :: nat] 5 = Inr v \<and>
        pv_page v = 2 \<and> pv_total_pages v = 3 \<and> pv_page_rows v = [21, 22, 23]"
    by (rule paginate_example)
qed


theorem paginate_with_spec_witness:
  "(0::int) < 10 \<and>
   (\<exists>v. paginate_with 10 [1 ..< 24 :: nat] 5 = Inr v \<and> pv_total_pages v = 3 \<and>
        pv_page v = 2 \<and> pv_page_rows v = [21, 22, 23])"
proof -
  have c: "\<lceil>(23::real) / 10\<rceil> = 3" by (simp add: ceiling_eq_iff)
  have p: "(0::int) < 10" by simp
  from paginate_with_spec [of 10 "[1 ..< 24 :: nat]" 5] p
  obtain v where v: "paginate_with 10 [1 ..< 24 :: nat] 5 = Inr v"
    and tp: "pv_total_pages v = max 1 \<lceil>real (length [1 ..< 24 :: nat]) / real_of_int 10\<rceil>"
    and pg: "pv_page v = (if (5::int) < 0 then 0
                     else if pv_total_pages v - 1 < 5 then pv_total_pages v - 1 else 5)"
    and rows: "pv_page_rows v =
          take (nat (min (int (length [1 ..< 24 :: nat])) ((pv_page v + 1) * 10) - pv_page v * 10))
            (drop (nat (pv_page v * 10)) [1 ..< 24 :: nat])"
    by blast
  have tp3: "pv_total_pages v = 3" using tp c by simp
  have pg2: "pv_page v = 2" using pg tp3 by simp
  have "pv_page_rows v = take 3 (drop 20 [1 ..< 24 :: nat])"
    using rows pg2 by simp
  then have "pv_page_rows v = [21, 22, 23]" by (simp only: last_three) simp
  with v tp3 pg2 p show ?thesis by blast
qed

subsection \<open>Facet options\<close>

lemma set_unique: "set (unique xs) = set xs"
  by (induction xs rule: unique.induct) auto

lemma distinct_unique: "distinct (unique xs)"
  by (induction xs rule: unique.induct) (auto simp add: set_unique)

lemma with_all_Cons: "with_all options =
    ''All'' # sort (map the (filter (\<lambda>x. x \<notin> {None, Some [], Some ''nan''}) options))"
  by (simp add: with_all_def)

lemma facet_values_set:
  "set (map the (filter (\<lambda>x. x \<notin> {None, Some [], Some ''nan''}) (unique (dropna col)))) =
     {v. Some v \<in> set col \<and> v \<noteq> [] \<and> v \<noteq> ''nan''}"
  by (force simp add: set_unique dropna_def image_iff)

lemma facet_values_distinct:
  "distinct (map the (filter (\<lambda>x. x \<notin> {None, Some [], Some ''nan''}) (unique (dropna col))))"
proof -
  have "inj_on the (set (filter (\<lambda>x. x \<notin> {None, Some [], Some ''nan''}) (unique (dropna col))))"
    by (rule inj_onI) auto
  then show ?thesis by (simp add: distinct_map distinct_unique)
qed

lemma sort_distinct: "distinct xs \<Longrightarrow> sort xs = sorted_list_of_set (set xs)"
  by (simp add: sorted_list_of_set_sort_remdups distinct_remdups_id)

lemma facet_options:
  "with_all (unique (dropna col)) =
     ''All'' # sorted_list_of_set {v. Some v \<in> set col \<and> v \<noteq> [] \<and> v \<noteq> ''nan''}"
  unfolding with_all_Cons
  by (simp only: sort_distinct [OF facet_values_distinct] facet_values_set)

lemma map_status_coerce:
  "map registration_status (coerce tn td data) = map registration_status data"
  by (simp add: coerce_def coerce_row_def)

lemma map_event_coerce:
  "map event_name (coerce tn td data) = map event_name data"
  by (simp add: coerce_def coerce_row_def)

lemma apply_dropdown_filters_passes:
  "apply_dropdown_filters d sc ec = filter (passes sc ec) d"
  by (auto simp add: apply_dropdown_filters_def passes_def Let_def intro: filter_cong)

lemma search_render_ok:
  assumes "data \<noteq> []"
  shows "search_render_org_insights tn td data sc ec =
     Inr \<lparr>s_status_options = with_all (unique (dropna (map registration_status data))),
          s_event_options = with_all (unique (dropna (map event_name data))),
          s_df = apply_dropdown_filters (coerce tn td data) sc ec,
          s_count_2025 = int (length (by_year (apply_dropdown_filters (coerce tn td data) sc ec) 2025)),
          s_count_2026 = int (length (by_year (apply_dropdown_filters (coerce tn td data) sc ec) 2026)),
          s_delta = int (length (by_year (apply_dropdown_filters (coerce tn td data) sc ec) 2026)) -
                    int (length (by_year (apply_dropdown_filters (coerce tn td data) sc ec) 2025))\<rparr>"
  using assms
  by (simp add: search_render_org_insights_def Let_def map_status_coerce map_event_coerce)

lemma app_render_ok:
  assumes "data \<noteq> []"
    and "aggregate today (apply_dropdown_filters (coerce tn td data) sc ec) = Inr m"
  shows "app_render_org_insights tn td today data sc ec =
     Inr \<lparr>status_options = with_all (unique (dropna (map registration_status data))),
          event_options = with_all (unique (dropna (map event_name data))),
          df_all = apply_dropdown_filters (coerce tn td data) sc ec,
          counts = m\<rparr>"
  using assms
  by (simp add: app_render_org_insights_def Let_def map_status_coerce map_event_coerce)

lemma app_render_Inr:
  assumes "app_render_org_insights tn td today data sc ec = Inr out"
  shows "data \<noteq> [] \<and>
     aggregate today (apply_dropdown_filters (coerce tn td data) sc ec) = Inr (counts out)"
  using assms
  by (auto simp add: app_render_org_insights_def Let_def split: if_splits sum.splits)

lemma with_all_demo_status:
  "with_all (unique (dropna (map registration_status demo_data))) =
     [''All'', ''All'', ''approved'', ''pending'']"
  by (simp add: demo_data_def req_def dropna_def with_all_def)

lemma with_all_nan:
  "with_all (unique (dropna (map registration_status nan_data))) = [''All'']"
  by (simp add: nan_data_def req_def dropna_def with_all_def)

lemma spec_facet_nan:
  "spec_facet_options (map registration_status nan_data) = [''All'', ''nan'']"
  by (simp add: nan_data_def req_def spec_facet_options_def)

lemma facet_options_rows:
  "with_all (unique (dropna (map f data))) =
     ''All'' # sorted_list_of_set {v. v \<noteq> [] \<and> v \<noteq> ''nan'' \<and> (\<exists>r\<in>set data. f r = Some v)}"
proof -
  have "{v. Some v \<in> set (map f data) \<and> v \<noteq> [] \<and> v \<noteq> ''nan''} =
        {v. v \<noteq> [] \<and> v \<noteq> ''nan'' \<and> (\<exists>r\<in>set data. f r = Some v)}"
    by (auto simp add: image_iff) metis
  then show ?thesis by (simp only: facet_options)
qed

text \<open>
  Claim C7, as the code has it. The option list of a facet (registration status, event
  name) is computed from the fetched requests, before any filter and whatever the two
  choices are: it is \<^verbatim>\<open>"All"\<close> followed by the distinct values of the field that are
  neither null, nor empty, nor the text \<^verbatim>\<open>"nan"\<close>, in ascending order. Both pages
  compute it so.
\<close>

theorem facet_options_unfiltered:
  "(data \<noteq> [] \<longrightarrow>
     (\<exists>out. search_render_org_insights tn td data sc ec = Inr out \<and>
        s_status_options out =
          ''All'' # sorted_list_of_set
            {v. v \<noteq> [] \<and> v \<noteq> ''nan'' \<and> (\<exists>r\<in>set data. registration_status r = Some v)} \<and>
        s_event_options out =
          ''All'' # sorted_list_of_set
            {v. v \<noteq> [] \<and> v \<noteq> ''nan'' \<and> (\<exists>r\<in>set data. event_name r = Some v)})) \<and>
   (app_render_org_insights tn td today data sc ec = Inr res \<longrightarrow>
      status_options res =
        ''All'' # sorted_list_of_set
          {v. v \<noteq> [] \<and> v \<noteq> ''nan'' \<and> (\<exists>r\<in>set data. registration_status r = Some v)} \<and>
      event_options res =
        ''All'' # sorted_list_of_set
          {v. v \<noteq> [] \<and> v \<noteq> ''nan'' \<and> (\<exists>r\<in>set data. event_name r = Some v)})"
proof (intro conjI impI)
  assume d: "data \<noteq> []"
  show "\<exists>out. search_render_org_insights tn td data sc ec = Inr out \<and>
        s_status_options out =
          ''All'' # sorted_list_of_set
            {v. v \<noteq> [] \<and> v \<noteq> ''nan'' \<and> (\<exists>r\<in>set data. registration_status r = Some v)} \<and>
        s_event_options out =
          ''All'' # sorted_list_of_set
            {v. v \<noteq> [] \<and> v \<noteq> ''nan'' \<and> (\<exists>r\<in>set data. event_name r = Some v)}"
    unfolding search_render_ok [OF d] by (simp only: search_insights.simps facet_options_rows) simp
next
  assume a: "app_render_org_insights tn td today data sc ec = Inr res"
  from app_render_Inr [OF a] have d: "data \<noteq> []"
    and m: "aggregate today (apply_dropdown_filters (coerce tn td data) sc ec) = Inr (counts res)"
    by simp_all
  from a app_render_ok [OF d m] have r: "res =
     \<lparr>status_options = with_all (unique (dropna (map registration_status data))),
      event_options = with_all (unique (dropna (map event_name data))),
      df_all = apply_dropdown_filters (coerce tn td data) sc ec,
      counts = counts res\<rparr>" by simp
  show "status_options res =
        ''All'' # sorted_list_of_set
          {v. v \<noteq> [] \<and> v \<noteq> ''nan'' \<and> (\<exists>r\<in>set data. registration_status r = Some v)}"
    by (subst r) (simp only: insights.simps facet_options_rows)
  show "event_options res =
        ''All'' # sorted_list_of_set
          {v. v \<noteq> [] \<and> v \<noteq> ''nan'' \<and> (\<exists>r\<in>set data. event_name r = Some v)}"
    by (subst r) (simp only: insights.simps facet_options_rows)
qed

theorem facet_options_unfiltered_witness:
  "demo_data \<noteq> [] \<and>
   (\<exists>out. search_render_org_insights json_number iso_date demo_data ''approved'' ''All'' = Inr out \<and>
      s_status_options out =
          ''All'' # sorted_list_of_set
            {v. v \<noteq> [] \<and> v \<noteq> ''nan'' \<and> (\<exists>r\<in>set demo_data. registration_status r = Some v)} \<and>
      s_status_options out = [''All'', ''All'', ''approved'', ''pending''])"
proof -
  have d: "demo_data \<noteq> []" by (simp add: demo_data_def)
  from facet_options_unfiltered [of demo_data json_number iso_date "''approved''" "''All''"] d
  obtain out where o: "search_render_org_insights json_number iso_date demo_data ''approved'' ''All'' = Inr out"
    and s: "s_status_options out =
          ''All'' # sorted_list_of_set
            {v. v \<noteq> [] \<and> v \<noteq> ''nan'' \<and> (\<exists>r\<in>set demo_data. registration_status r = Some v)}"
    by blast
  from o have "s_status_options out = with_all (unique (dropna (map registration_status demo_data)))"
    unfolding search_render_ok [OF d] by auto
  then have "s_status_options out = [''All'', ''All'', ''approved'', ''pending'']"
    by (simp only: with_all_demo_status)
  with d o s show ?thesis by blast
qed

text \<open>
  The claim without the exception fails: for one request whose status is the text
  \<^verbatim>\<open>"nan"\<close> the page offers \<^verbatim>\<open>["All"]\<close>, while the distinct non-null, non-empty
  values after \<^verbatim>\<open>"All"\<close> are \<^verbatim>\<open>["All", "nan"]\<close>.
\<close>

theorem facet_options_nan_counterexample:
  "map_sum id s_status_options
     (search_render_org_insights json_number iso_date nan_data ''All'' ''All'') = Inr [''All''] \<and>
   spec_facet_options (map registration_status nan_data) = [''All'', ''nan''] \<and>
   map_sum id s_status_options
     (search_render_org_insights json_number iso_date nan_data ''All'' ''All'') \<noteq>
   Inr (spec_facet_options (map registration_status nan_data))"
proof -
  have d: "nan_data \<noteq> []" by (simp add: nan_data_def)
  show ?thesis
    unfolding search_render_ok [OF d] by (simp add: with_all_nan spec_facet_nan)
qed

subsection \<open>The wildcard choice\<close>

lemma count_list_sort: "count_list (sort xs) x = count_list xs (x::'a::linorder)"
proof -
  have "count (mset (sort xs)) x = count (mset xs) x" by simp
  then show ?thesis by (simp only: count_mset)
qed

lemma count_with_all:
  "count_list (with_all options) ''All'' = Suc (count_list options (Some ''All''))"
proof -
  have "count_list (map the (filter (\<lambda>x. x \<notin> {None, Some [], Some ''nan''}) options)) ''All'' =
        count_list options (Some ''All'')"
    by (induction options) auto
  then show ?thesis by (simp add: with_all_Cons count_list_sort)
qed

lemma count_list_distinct: "distinct xs \<Longrightarrow> x \<in> set xs \<Longrightarrow> count_list xs x = 1"
  by (induction xs) (auto simp add: count_list_0_iff)

text \<open>
  Claim C10. The text \<^verbatim>\<open>"All"\<close> cannot be used as a facet value. The option list
  always starts with \<^verbatim>\<open>"All"\<close>, and holds it once more for every \<^verbatim>\<open>"All"\<close> among
  the values it is built from: twice in all when some request has that status. A choice
  of \<^verbatim>\<open>"All"\<close> puts no constraint on its facet, so with both choices \<^verbatim>\<open>"All"\<close> the
  filter returns its input; as soon as one request has another value, that is not the list
  of the requests whose value is \<^verbatim>\<open>"All"\<close>.
\<close>

theorem all_shadows_value:
  "hd (with_all options) = ''All'' \<and>
   count_list (with_all options) ''All'' = Suc (count_list options (Some ''All'')) \<and>
   ((\<exists>r\<in>set data. registration_status r = Some ''All'') \<longrightarrow>
      count_list (with_all (unique (dropna (map registration_status data)))) ''All'' = 2) \<and>
   apply_dropdown_filters d ''All'' ''All'' = d \<and>
   apply_dropdown_filters d ''All'' ec = filter (\<lambda>r. ec = ''All'' \<or> event_name r = Some ec) d \<and>
   apply_dropdown_filters d sc ''All'' =
     filter (\<lambda>r. sc = ''All'' \<or> registration_status r = Some sc) d \<and>
   ((\<exists>r\<in>set d. registration_status r \<noteq> Some ''All'') \<longrightarrow>
      apply_dropdown_filters d ''All'' ''All'' \<noteq>
      filter (\<lambda>r. registration_status r = Some ''All'') d) \<and>
   ((\<exists>r\<in>set d. event_name r \<noteq> Some ''All'') \<longrightarrow>
      apply_dropdown_filters d ''All'' ''All'' \<noteq> filter (\<lambda>r. event_name r = Some ''All'') d)"
proof (intro conjI impI)
  show "hd (with_all options) = ''All''" by (simp add: with_all_Cons)
  show "count_list (with_all options) ''All'' = Suc (count_list options (Some ''All''))"
    by (rule count_with_all)
  show "apply_dropdown_filters d ''All'' ''All'' = d"
    by (simp add: apply_dropdown_filters_def)
  show "apply_dropdown_filters d ''All'' ec = filter (\<lambda>r. ec = ''All'' \<or> event_name r = Some ec) d"
    by (simp add: apply_dropdown_filters_def)
  show "apply_dropdown_filters d sc ''All'' =
     filter (\<lambda>r. sc = ''All'' \<or> registration_status r = Some sc) d"
    by (simp add: apply_dropdown_filters_def)
next
  assume "\<exists>r\<in>set data. registration_status r = Some ''All''"
  then have "Some ''All'' \<in> set (unique (dropna (map registration_status data)))"
    by (auto simp add: set_unique dropna_def image_iff) metis
  then have "count_list (unique (dropna (map registration_status data))) (Some ''All'') = 1"
    by (intro count_list_distinct distinct_unique)
  then show "count_list (with_all (unique (dropna (map registration_status data)))) ''All'' = 2"
    by (simp add: count_with_all)
next
  assume "\<exists>r\<in>set d. registration_status r \<noteq> Some ''All''"
  then have "filter (\<lambda>r. registration_status r = Some ''All'') d \<noteq> d"
    by (simp add: filter_id_conv)
  then show "apply_dropdown_filters d ''All'' ''All'' \<noteq>
      filter (\<lambda>r. registration_status r = Some ''All'') d"
    by (simp add: apply_dropdown_filters_def)
next
  assume "\<exists>r\<in>set d. event_name r \<noteq> Some ''All''"
  then have "filter (\<lambda>r. event_name r = Some ''All'') d \<noteq> d"
    by (simp add: filter_id_conv)
  then show "apply_dropdown_filters d ''All'' ''All'' \<noteq> filter (\<lambda>r. event_name r = Some ''All'') d"
    by (simp add: apply_dropdown_filters_def)
qed

theorem all_shadows_value_witness:
  "Some ''All'' \<in> set (map registration_status demo_data) \<and>
   Some ''pending'' \<in> set (map registration_status demo_data) \<and>
   count_list (with_all (unique (dropna (map registration_status demo_data)))) ''All'' = 2 \<and>
   apply_dropdown_filters demo_data ''All'' ''All'' = demo_data \<and>
   apply_dropdown_filters demo_data ''All'' ''All'' \<noteq>
     filter (\<lambda>r. registration_status r = Some ''All'') demo_data"
proof -
  have a: "\<exists>r\<in>set demo_data. registration_status r = Some ''All''"
    by (simp add: demo_data_def req_def)
  have b: "\<exists>r\<in>set demo_data. registration_status r \<noteq> Some ''All''"
    by (simp add: demo_data_def req_def)
  have c: "Some ''All'' \<in> set (map registration_status demo_data)"
    "Some ''pending'' \<in> set (map registration_status demo_data)"
    by (simp_all add: demo_data_def req_def)
  from all_shadows_value [of "[]" demo_data demo_data "''All''" "''All''"] a b c
  show ?thesis by blast
qed

subsection \<open>Requests with a malformed year\<close>

lemma by_year_coerce_length:
  "length (by_year (filter (passes sc ec) (coerce tn td data)) y) =
   length (filter (\<lambda>x. tn (start_date_calendar_year x) = Some y \<and> passes sc ec x) data)"
proof -
  have "by_year (filter (passes sc ec) (coerce tn td data)) y =
        map (coerce_row tn td data)
          (filter (\<lambda>x. tn (start_date_calendar_year x) = Some y \<and> passes sc ec x) data)"
    by (simp add: by_year_def coerce_def filter_map comp_def coerce_row_def passes_def
        conj_commute conj_left_commute cong: conj_cong)
  then show ?thesis by simp
qed

lemma passes_coerce_row: "passes sc ec (coerce_row tn td data r) = passes sc ec r"
  by (simp add: passes_def coerce_row_def)

text \<open>
  Claim C8. A request whose year cell fails the numeric coercion gets the missing year and
  the batch goes on: the page returns its result, the coerced frame has one row for each
  fetched request, and the filtered view is the frame filtered by the two choices alone.
  The request with the missing year is in that view whenever it meets the two choices; it
  is in neither yearly partition and in neither year-to-date selection; and the counts of
  2025 and 2026 are the numbers of fetched requests with that year that meet the choices.
  (The day is one on which the cutoff of 2025 exists.)
\<close>

theorem malformed_year_kept_out:
  assumes "valid_date today" "(month today, day today) \<noteq> (2, 29)"
    and "r \<in> set data" "to_numeric (start_date_calendar_year r) = None"
  shows "\<exists>res. app_render_org_insights to_numeric to_datetime today data sc ec = Inr res \<and>
     length (coerce to_numeric to_datetime data) = length data \<and>
     df_all res = filter (passes sc ec) (coerce to_numeric to_datetime data) \<and>
     (passes sc ec r \<longrightarrow> coerce_row to_numeric to_datetime data r \<in> set (df_all res)) \<and>
     coerce_row to_numeric to_datetime data r \<notin> set (df_2025 (counts res)) \<and>
     coerce_row to_numeric to_datetime data r \<notin> set (df_2026 (counts res)) \<and>
     coerce_row to_numeric to_datetime data r \<notin> set (df_2025_ytd (counts res)) \<and>
     coerce_row to_numeric to_datetime data r \<notin> set (df_2026_ytd (counts res)) \<and>
     count_2025 (counts res) =
       int (length (filter (\<lambda>x. to_numeric (start_date_calendar_year x) = Some 2025 \<and>
                                 passes sc ec x) data)) \<and>
     count_2026 (counts res) =
       int (length (filter (\<lambda>x. to_numeric (start_date_calendar_year x) = Some 2026 \<and>
                                 passes sc ec x) data))"
proof -
  let ?df = "apply_dropdown_filters (coerce to_numeric to_datetime data) sc ec"
  let ?c = "coerce_row to_numeric to_datetime data r"
  from assms(3) have d: "data \<noteq> []" by auto
  from assms(1,2) have c: "mk_date 2025 (month today) (day today) =
      Inr \<lparr>year = 2025, month = month today, day = day today\<rparr>"
    by (intro mk_date_2025) auto
  note m = aggregate_ok [OF c, of ?df]
  note res = app_render_ok [OF d m]
  have y: "start_date_calendar_year ?c = None"
    using assms(4) by (simp add: coerce_row_def)
  have n25: "?c \<notin> set (by_year ?df 2025)" using y by (simp add: by_year_def)
  have n26: "?c \<notin> set (by_year ?df 2026)" using y by (simp add: by_year_def)
  have u25: "?c \<notin> set (upto_date (by_year ?df 2025) \<lparr>year = 2025, month = month today, day = day today\<rparr>)"
    using y by (simp add: by_year_def upto_date_def)
  have u26: "?c \<notin> set (upto_date (by_year ?df 2026) today)"
    using y by (simp add: by_year_def upto_date_def)
  have inall: "passes sc ec r \<longrightarrow> ?c \<in> set ?df"
    using assms(3) by (simp add: apply_dropdown_filters_passes passes_coerce_row coerce_def)
  have l: "length (coerce to_numeric to_datetime data) = length data" by (simp add: coerce_def)
  have c25: "int (length (by_year ?df 2025)) =
       int (length (filter (\<lambda>x. to_numeric (start_date_calendar_year x) = Some 2025 \<and>
                                 passes sc ec x) data))"
    by (simp only: apply_dropdown_filters_passes by_year_coerce_length)
  have c26: "int (length (by_year ?df 2026)) =
       int (length (filter (\<lambda>x. to_numeric (start_date_calendar_year x) = Some 2026 \<and>
                                 passes sc ec x) data))"
    by (simp only: apply_dropdown_filters_passes by_year_coerce_length)
  show ?thesis
    unfolding res
    using n25 n26 u25 u26 inall l c25 c26
    by (simp add: apply_dropdown_filters_passes)
qed

lemma py_int_na: "py_int ''n/a'' = None"
  by (simp add: py_int_def strip_def lstrip_def rstrip_def isspace_def is_digit_def Let_def)

theorem malformed_year_kept_out_witness:
  "valid_date \<lparr>year = 2026, month = 3, day = 15\<rparr> \<and>
   bad_row \<in> set demo_data \<and>
   json_number (start_date_calendar_year bad_row) = None \<and>
   (\<exists>res. app_render_org_insights json_number iso_date \<lparr>year = 2026, month = 3, day = 15\<rparr>
              demo_data ''All'' ''All'' = Inr res \<and>
      length (df_all res) = 4 \<and>
      coerce_row json_number iso_date demo_data bad_row \<in> set (df_all res) \<and>
      coerce_row json_number iso_date demo_data bad_row \<notin> set (df_2025 (counts res)) \<and>
      coerce_row json_number iso_date demo_data bad_row \<notin> set (df_2026 (counts res)) \<and>
      count_2025 (counts res) = 1 \<and> count_2026 (counts res) = 2)"
proof -
  have v: "valid_date \<lparr>year = 2026, month = 3, day = 15\<rparr>" by (rule valid_20260315)
  have nf: "(month \<lparr>year = 2026, month = 3, day = 15\<rparr>, day \<lparr>year = 2026, month = 3, day = 15\<rparr>) \<noteq> (2, 29)"
    by simp
  have mem: "bad_row \<in> set demo_data" by (simp add: demo_data_def bad_row_def)
  have bad: "json_number (start_date_calendar_year bad_row) = None"
    by (simp add: bad_row_def req_def py_int_na)
  have p: "passes ''All'' ''All'' x" for x :: "('y, 'd) request" by (simp add: passes_def)
  have n25: "length (filter (\<lambda>x. json_number (start_date_calendar_year x) = Some 2025 \<and>
                                 passes ''All'' ''All'' x) demo_data) = 1"
    by (simp add: p demo_data_def req_def py_int_na)
  have n26: "length (filter (\<lambda>x. json_number (start_date_calendar_year x) = Some 2026 \<and>
                                 passes ''All'' ''All'' x) demo_data) = 2"
    by (simp add: p demo_data_def req_def py_int_na)
  have l: "length demo_data = 4" by (simp add: demo_data_def)
  from malformed_year_kept_out
         [where today = "\<lparr>year = 2026, month = 3, day = 15\<rparr>" and r = bad_row
            and data = demo_data and to_numeric = json_number and to_datetime = iso_date
            and sc = "''All''" and ec = "''All''", OF v nf mem bad]
  obtain res where r: "app_render_org_insights json_number iso_date
        \<lparr>year = 2026, month = 3, day = 15\<rparr> demo_data ''All'' ''All'' = Inr res"
    and a: "length (coerce json_number iso_date demo_data) = length demo_data"
    and b: "df_all res = filter (passes ''All'' ''All'') (coerce json_number iso_date demo_data)"
    and c: "passes ''All'' ''All'' bad_row \<longrightarrow>
            coerce_row json_number iso_date demo_data bad_row \<in> set (df_all res)"
    and d: "coerce_row json_number iso_date demo_data bad_row \<notin> set (df_2025 (counts res))"
           "coerce_row json_number iso_date demo_data bad_row \<notin> set (df_2026 (counts res))"
    and e: "count_2025 (counts res) =
       int (length (filter (\<lambda>x. json_number (start_date_calendar_year x) = Some 2025 \<and>
                                 passes ''All'' ''All'' x) demo_data))"
      "count_2026 (counts res) =
       int (length (filter (\<lambda>x. json_number (start_date_calendar_year x) = Some 2026 \<and>
                                 passes ''All'' ''All'' x) demo_data))"
    by blast
  have la: "length (df_all res) = 4" using a b l by (simp add: p)
  have ia: "coerce_row json_number iso_date demo_data bad_row \<in> set (df_all res)"
    using c by (simp add: p)
  have e25: "count_2025 (counts res) = 1" using e(1) n25 by simp
  have e26: "count_2026 (counts res) = 2" using e(2) n26 by simp
  from v mem bad r la ia d e25 e26 show ?thesis by blast
qed

subsection \<open>Ranking of the candidates\<close>

lemma rank_key_text:
  assumes "has_text_name r"
  shows "rank_key ratio query r = Inr (sort_pair ratio query r)"
  using assms
  by (auto simp add: has_text_name_def rank_key_def sort_pair_def org_name_def split: jval.splits)

lemma decorate_ok:
  assumes "\<forall>x\<in>set xs. f x = Inr (g x)"
  shows "decorate f xs = Inr (map (\<lambda>x. (g x, x)) xs)"
  using assms by (induction xs) auto

lemma insort_decorated:
  assumes "\<forall>p\<in>set ps. fst p = g (snd p)"
  shows "map snd (insort_key fst (g x, x) ps) = insort_key g x (map snd ps)"
  using assms by (induction ps) auto

lemma sort_decorated:
  "map snd (sort_key fst (map (\<lambda>x. (g x, x)) xs)) = sort_key g xs"
proof (induction xs)
  case Nil
  then show ?case by simp
next
  case (Cons x xs)
  have "\<forall>p\<in>set (sort_key fst (map (\<lambda>x. (g x, x)) xs)). fst p = g (snd p)"
    by auto
  then show ?case using Cons by (simp add: insort_decorated)
qed

lemma list_sort_ok:
  assumes "\<forall>x\<in>set xs. f x = Inr (g x)"
  shows "list_sort f xs = Inr (sort_key g xs)"
  by (simp add: list_sort_def decorate_ok [OF assms] sort_decorated)

lemma fetch_by_name:
  assumes "strip query \<noteq> []" "\<not> is_int (strip query)"
    and "orgs_ilike st (''%'' @ strip query @ ''%'') 200 = Inr rows"
    and "\<forall>r\<in>set rows. has_text_name r"
  shows "fetch_org_candidates ratio st query =
         Inr (sort_key (sort_pair ratio (strip query)) rows)"
proof -
  have "\<forall>r\<in>set rows. rank_key ratio (strip query) r = Inr (sort_pair ratio (strip query) r)"
    using assms(4) by (simp add: rank_key_text)
  then have "list_sort (rank_key ratio (strip query)) rows =
      Inr (sort_key (sort_pair ratio (strip query)) rows)"
    by (rule list_sort_ok)
  then show ?thesis using assms(1-3) by (simp add: fetch_org_candidates_def Let_def)
qed

lemma fetch_by_id:
  assumes "strip query \<noteq> []" "py_int (strip query) = Some n"
  shows "fetch_org_candidates ratio st query = orgs_eq st n"
  using assms by (simp add: fetch_org_candidates_def Let_def is_int_def)

lemma sorted_pairs_order:
  assumes "sorted (map (sort_pair ratio q) out)" "i < j" "j < length out"
  shows "similarity ratio q (org_name (out ! j)) < similarity ratio q (org_name (out ! i)) \<or>
         (similarity ratio q (org_name (out ! j)) = similarity ratio q (org_name (out ! i)) \<and>
          length (org_name (out ! i)) \<le> length (org_name (out ! j)))"
proof -
  from assms have "map (sort_pair ratio q) out ! i \<le> map (sort_pair ratio q) out ! j"
    by (intro sorted_nth_mono) auto
  with assms have "sort_pair ratio q (out ! i) \<le> sort_pair ratio q (out ! j)" by simp
  then show ?thesis by (auto simp add: sort_pair_def less_eq_prod_def)
qed

lemma prefix_ratio_range: "0 \<le> prefix_ratio a b \<and> prefix_ratio a b \<le> 1"
proof (cases "a = [] \<and> b = []")
  case True
  then show ?thesis by (simp add: prefix_ratio_def)
next
  case False
  define l where "l = length (takeWhile (\<lambda>(x, y). x = y) (zip a b))"
  have "l \<le> length (zip a b)" unfolding l_def by (rule length_takeWhile_le)
  then have "2 * l \<le> length a + length b" by simp
  then have le: "2 * real l \<le> real (length a + length b)"
    by (metis of_nat_le_iff of_nat_mult of_nat_numeral)
  from False have "0 < length a + length b" by auto
  then have pos: "0 < real (length a + length b)" by (simp only: of_nat_0_less_iff)
  have eq: "prefix_ratio a b = 2 * real l / real (length a + length b)"
    using False by (simp add: prefix_ratio_def l_def)
  have "0 \<le> 2 * real l / real (length a + length b)" by simp
  moreover have "2 * real l / real (length a + length b) \<le> 1"
    using le pos by (simp only: divide_le_eq_1_pos)
  ultimately show ?thesis unfolding eq by simp
qed

lemma prefix_ratio_same: "prefix_ratio a a = 1"
proof (cases "a = []")
  case True
  then show ?thesis by (simp add: prefix_ratio_def)
next
  case False
  have h: "takeWhile (\<lambda>(x, y). x = y) (zip a a) = zip a a"
    by (rule takeWhile_eq_all_conv [THEN iffD2]) (auto simp add: zip_same)
  have "prefix_ratio a a = 2 * real (length (zip a a)) / real (length a + length a)"
    using False unfolding prefix_ratio_def h by simp
  also have "\<dots> = 1" using False by simp
  finally show ?thesis .
qed

lemma org_name_row: "org_name (org_row n s) = s"
  by (cases s) (simp_all add: org_name_def name_or_empty_def dict_get_def org_row_def)

lemma has_text_name_row: "has_text_name (org_row n s)"
  by (simp add: has_text_name_def name_or_empty_def dict_get_def org_row_def)

lemma strip_Canes: "strip ''Canes'' = ''Canes''"
  by (simp add: strip_def lstrip_def rstrip_def isspace_def)

lemma py_int_Canes: "py_int ''Canes'' = None"
  by (simp add: py_int_def strip_Canes is_digit_def)

text \<open>
  Claim C3. For a query that, once stripped, is neither empty nor an integer, the search
  returns the candidates the store's name match gave, each as often as the store gave it,
  ordered by descending similarity between the stripped query and the candidate's name,
  both lowercased, and among equal similarities by ascending length of the name. The
  similarity is the library's ratio: it is taken to lie between 0 and 1 and to be 1 on
  identical texts, so the similarity of a name that equals the query up to case is 1. For
  the candidates \<^verbatim>\<open>"Canes Baseball"\<close>, \<^verbatim>\<open>"Canes"\<close> and the query \<^verbatim>\<open>"Canes"\<close> the
  result is \<^verbatim>\<open>"Canes"\<close>, then \<^verbatim>\<open>"Canes Baseball"\<close>. (Rows are those whose name cell
  is text or null, as the store's text column gives them.)
\<close>

theorem fetch_org_candidates_ranked:
  assumes "strip query \<noteq> []" "\<not> is_int (strip query)"
    and "orgs_ilike st (''%'' @ strip query @ ''%'') 200 = Inr rows"
    and "\<forall>r\<in>set rows. has_text_name r"
    and "\<forall>a b. 0 \<le> ratio a b \<and> ratio a b \<le> 1"
    and "\<forall>a. ratio a a = 1"
  shows "\<exists>out. fetch_org_candidates ratio st query = Inr out \<and>
     mset out = mset rows \<and>
     (\<forall>i j. i < j \<and> j < length out \<longrightarrow>
        similarity ratio (strip query) (org_name (out ! j)) <
          similarity ratio (strip query) (org_name (out ! i)) \<or>
        (similarity ratio (strip query) (org_name (out ! j)) =
           similarity ratio (strip query) (org_name (out ! i)) \<and>
         length (org_name (out ! i)) \<le> length (org_name (out ! j)))) \<and>
     (\<forall>r\<in>set out. 0 \<le> similarity ratio (strip query) (org_name r) \<and>
                    similarity ratio (strip query) (org_name r) \<le> 1) \<and>
     (\<forall>r\<in>set out. lower (org_name r) = lower (strip query) \<longrightarrow>
                    similarity ratio (strip query) (org_name r) = 1) \<and>
     (strip query = ''Canes'' \<and> map org_name rows = [''Canes Baseball'', ''Canes''] \<longrightarrow>
        map org_name out = [''Canes'', ''Canes Baseball''])"
proof -
  let ?k = "sort_pair ratio (strip query)"
  let ?out = "sort_key ?k rows"
  have f: "fetch_org_candidates ratio st query = Inr ?out"
    by (rule fetch_by_name [OF assms(1-4)])
  have m: "mset ?out = mset rows" by simp
  have s: "sorted (map ?k ?out)" by simp
  have ord: "\<forall>i j. i < j \<and> j < length ?out \<longrightarrow>
        similarity ratio (strip query) (org_name (?out ! j)) <
          similarity ratio (strip query) (org_name (?out ! i)) \<or>
        (similarity ratio (strip query) (org_name (?out ! j)) =
           similarity ratio (strip query) (org_name (?out ! i)) \<and>
         length (org_name (?out ! i)) \<le> length (org_name (?out ! j)))"
    using sorted_pairs_order [OF s] by blast
  have rng: "\<forall>r\<in>set ?out. 0 \<le> similarity ratio (strip query) (org_name r) \<and>
                    similarity ratio (strip query) (org_name r) \<le> 1"
    using assms(5) by (simp add: similarity_def)
  have one: "\<forall>r\<in>set ?out. lower (org_name r) = lower (strip query) \<longrightarrow>
                    similarity ratio (strip query) (org_name r) = 1"
    using assms(6) by (simp add: similarity_def)
  have ex: "strip query = ''Canes'' \<and> map org_name rows = [''Canes Baseball'', ''Canes''] \<longrightarrow>
        map org_name ?out = [''Canes'', ''Canes Baseball'']"
  proof
    assume a: "strip query = ''Canes'' \<and> map org_name rows = [''Canes Baseball'', ''Canes'']"
    then obtain x y where r: "rows = [x, y]" and x: "org_name x = ''Canes Baseball''"
      and y: "org_name y = ''Canes''" by auto
    have ky: "?k y = (- 1, 5)" using a y assms(6) by (simp add: sort_pair_def similarity_def)
    have "similarity ratio (strip query) (org_name x) \<le> 1"
      using assms(5) by (simp add: similarity_def)
    then have "\<not> ?k x \<le> ?k y"
      unfolding ky by (simp add: sort_pair_def x less_eq_prod_def)
    then show "map org_name ?out = [''Canes'', ''Canes Baseball'']"
      by (simp add: r x y)
  qed
  show ?thesis
  proof (intro exI conjI)
    show "fetch_org_candidates ratio st query = Inr ?out" by (rule f)
  qed (rule m ord rng one ex)+
qed

theorem fetch_org_candidates_ranked_witness:
  "strip ''Canes'' \<noteq> [] \<and> \<not> is_int (strip ''Canes'') \<and>
   orgs_ilike (demo_store canes_rows) (''%'' @ strip ''Canes'' @ ''%'') 200 = Inr canes_rows \<and>
   list_all has_text_name canes_rows \<and>
   (\<exists>out. fetch_org_candidates prefix_ratio (demo_store canes_rows) ''Canes'' = Inr out \<and>
      map org_name out = [''Canes'', ''Canes Baseball''])"
proof -
  have 1: "strip ''Canes'' \<noteq> []" by (simp add: strip_Canes)
  have 2: "\<not> is_int (strip ''Canes'')" by (simp add: strip_Canes is_int_def py_int_Canes)
  have 3: "orgs_ilike (demo_store canes_rows) (''%'' @ strip ''Canes'' @ ''%'') 200 = Inr canes_rows"
    by (simp add: demo_store_def canes_rows_def)
  have 4: "\<forall>r\<in>set canes_rows. has_text_name r"
    by (simp add: canes_rows_def has_text_name_row)
  have 5: "\<forall>a b. 0 \<le> prefix_ratio a b \<and> prefix_ratio a b \<le> 1"
    by (simp add: prefix_ratio_range)
  have 6: "\<forall>a. prefix_ratio a a = 1" by (simp add: prefix_ratio_same)
  have 7: "map org_name canes_rows = [''Canes Baseball'', ''Canes'']"
    by (simp add: canes_rows_def org_name_row)
  have "\<exists>out. fetch_org_candidates prefix_ratio (demo_store canes_rows) ''Canes'' = Inr out \<and>
     (strip ''Canes'' = ''Canes'' \<and> map org_name canes_rows = [''Canes Baseball'', ''Canes''] \<longrightarrow>
        map org_name out = [''Canes'', ''Canes Baseball''])"
    using fetch_org_candidates_ranked [OF 1 2 3 4 5 6]
    by (elim exE conjE, intro exI conjI) assumption+
  moreover have "strip ''Canes'' = ''Canes'' \<and>
      map org_name canes_rows = [''Canes Baseball'', ''Canes'']"
    using strip_Canes 7 by simp
  ultimately have r: "\<exists>out. fetch_org_candidates prefix_ratio (demo_store canes_rows) ''Canes'' = Inr out \<and>
      map org_name out = [''Canes'', ''Canes Baseball'']" by simp
  have t: "list_all has_text_name canes_rows" using 4 by (simp only: list_all_iff)
  from 1 2 3 t r show ?thesis by (intro conjI)
qed

subsection \<open>The order the store returns\<close>

lemma map_sort_key: "map f (sort_key f xs) = sort (map f xs)"
  by (rule properties_for_sort [symmetric]) simp_all

lemma sort_key_two_ties:
  assumes "f a = f b"
  shows "sort_key f [a, b] = [a, b]"
  using assms by simp

text \<open>
  Claim C9, as the code has it. The search has no randomness: its result is a function of
  the query and of the list the store returned. When two answers of the store hold the
  same candidates in different orders, the two results hold the same candidates and show
  the same sequence of sort pairs (similarity, name length); the candidates that share a
  sort pair stand in each result in the order in which the store returned them; and when
  no two candidates share a sort pair, the two results are the same list.
\<close>

theorem fetch_org_candidates_store_order:
  assumes "strip query \<noteq> []" "\<not> is_int (strip query)"
    and "orgs_ilike st1 (''%'' @ strip query @ ''%'') 200 = Inr rows1"
    and "orgs_ilike st2 (''%'' @ strip query @ ''%'') 200 = Inr rows2"
    and "mset rows1 = mset rows2"
    and "\<forall>r\<in>set rows1. has_text_name r"
  shows "\<exists>out1 out2.
     fetch_org_candidates ratio st1 query = Inr out1 \<and>
     fetch_org_candidates ratio st2 query = Inr out2 \<and>
     mset out1 = mset out2 \<and>
     map (sort_pair ratio (strip query)) out1 = map (sort_pair ratio (strip query)) out2 \<and>
     (\<forall>k. filter (\<lambda>r. sort_pair ratio (strip query) r = k) out1 =
          filter (\<lambda>r. sort_pair ratio (strip query) r = k) rows1) \<and>
     (\<forall>k. filter (\<lambda>r. sort_pair ratio (strip query) r = k) out2 =
          filter (\<lambda>r. sort_pair ratio (strip query) r = k) rows2) \<and>
     (inj_on (sort_pair ratio (strip query)) (set rows1) \<longrightarrow> out1 = out2)"
proof -
  let ?k = "sort_pair ratio (strip query)"
  have s: "set rows2 = set rows1" using assms(5) by (metis mset_eq_setD)
  then have t2: "\<forall>r\<in>set rows2. has_text_name r" using assms(6) by simp
  have f1: "fetch_org_candidates ratio st1 query = Inr (sort_key ?k rows1)"
    by (rule fetch_by_name [OF assms(1,2,3,6)])
  have f2: "fetch_org_candidates ratio st2 query = Inr (sort_key ?k rows2)"
    by (rule fetch_by_name [OF assms(1,2,4) t2])
  have m: "mset (sort_key ?k rows1) = mset (sort_key ?k rows2)" using assms(5) by simp
  have "mset (map ?k rows1) = mset (map ?k rows2)" using assms(5) by (metis mset_map)
  then have "sort (map ?k rows1) = sort (map ?k rows2)"
    by (intro properties_for_sort) simp_all
  then have ks: "map ?k (sort_key ?k rows1) = map ?k (sort_key ?k rows2)"
    by (simp only: map_sort_key)
  have st1: "\<forall>k. filter (\<lambda>r. ?k r = k) (sort_key ?k rows1) = filter (\<lambda>r. ?k r = k) rows1"
    by (simp add: sort_key_stable)
  have st2: "\<forall>k. filter (\<lambda>r. ?k r = k) (sort_key ?k rows2) = filter (\<lambda>r. ?k r = k) rows2"
    by (simp add: sort_key_stable)
  have inj: "inj_on ?k (set rows1) \<longrightarrow> sort_key ?k rows1 = sort_key ?k rows2"
    using assms(5) by (auto intro: sort_key_eq_sort_key)
  show ?thesis
  proof (intro exI conjI)
    show "fetch_org_candidates ratio st1 query = Inr (sort_key ?k rows1)" by (rule f1)
    show "fetch_org_candidates ratio st2 query = Inr (sort_key ?k rows2)" by (rule f2)
  qed (rule m ks st1 st2 inj)+
qed

lemma sort_pair_twin:
  "sort_pair ratio q (org_row 1 ''Canes'') = sort_pair ratio q (org_row 2 ''Canes'')"
  by (simp only: sort_pair_def org_name_row)

lemma twins_rev: "rev twins = [org_row 2 ''Canes'', org_row 1 ''Canes'']"
  by (simp add: twins_def)

lemma twins_differ: "twins \<noteq> rev twins"
  by (simp add: twins_def org_row_def)

lemma fetch_twins:
  "fetch_org_candidates prefix_ratio (demo_store twins) ''Canes'' = Inr twins"
proof -
  have 1: "strip ''Canes'' \<noteq> []" by (simp add: strip_Canes)
  have 2: "\<not> is_int (strip ''Canes'')" by (simp add: strip_Canes is_int_def py_int_Canes)
  have 3: "orgs_ilike (demo_store twins) (''%'' @ strip ''Canes'' @ ''%'') 200 = Inr twins"
    by (simp add: demo_store_def twins_def)
  have 4: "\<forall>r\<in>set twins. has_text_name r" by (simp add: twins_def has_text_name_row)
  have "sort_key (sort_pair prefix_ratio (strip ''Canes'')) twins = twins"
    unfolding twins_def by (rule sort_key_two_ties) (rule sort_pair_twin)
  with fetch_by_name [OF 1 2 3 4] show ?thesis by simp
qed

lemma fetch_twins_rev:
  "fetch_org_candidates prefix_ratio (demo_store (rev twins)) ''Canes'' = Inr (rev twins)"
proof -
  have 1: "strip ''Canes'' \<noteq> []" by (simp add: strip_Canes)
  have 2: "\<not> is_int (strip ''Canes'')" by (simp add: strip_Canes is_int_def py_int_Canes)
  have 3: "orgs_ilike (demo_store (rev twins)) (''%'' @ strip ''Canes'' @ ''%'') 200 = Inr (rev twins)"
    by (simp add: demo_store_def twins_def)
  have 4: "\<forall>r\<in>set (rev twins). has_text_name r" by (simp add: twins_def has_text_name_row)
  have "sort_key (sort_pair prefix_ratio (strip ''Canes'')) (rev twins) = rev twins"
    unfolding twins_rev by (rule sort_key_two_ties) (rule sort_pair_twin [symmetric])
  with fetch_by_name [OF 1 2 3 4] show ?thesis by simp
qed

text \<open>
  The order the store returns does show among ties: two organisations of the same name
  have the same sort pair, and the search returns them as the store did, in either order.
\<close>

theorem store_order_counterexample:
  "mset (rev twins) = mset twins \<and>
   fetch_org_candidates prefix_ratio (demo_store twins) ''Canes'' = Inr twins \<and>
   fetch_org_candidates prefix_ratio (demo_store (rev twins)) ''Canes'' = Inr (rev twins) \<and>
   fetch_org_candidates prefix_ratio (demo_store twins) ''Canes'' \<noteq>
   fetch_org_candidates prefix_ratio (demo_store (rev twins)) ''Canes''"
  unfolding fetch_twins fetch_twins_rev using twins_differ by simp

lemma inj_canes: "inj_on (sort_pair prefix_ratio (strip ''Canes'')) (set canes_rows)"
proof -
  have "sort_pair prefix_ratio (strip ''Canes'') (org_row 2 ''Canes Baseball'') \<noteq>
        sort_pair prefix_ratio (strip ''Canes'') (org_row 1 ''Canes'')"
    by (simp add: sort_pair_def org_name_row)
  then show ?thesis by (simp add: canes_rows_def inj_on_def)
qed

theorem fetch_org_candidates_store_order_witness:
  "strip ''Canes'' \<noteq> [] \<and> \<not> is_int (strip ''Canes'') \<and>
   mset canes_rows = mset (rev canes_rows) \<and>
   list_all has_text_name canes_rows \<and>
   inj_on (sort_pair prefix_ratio (strip ''Canes'')) (set canes_rows) \<and>
   fetch_org_candidates prefix_ratio (demo_store canes_rows) ''Canes'' =
   fetch_org_candidates prefix_ratio (demo_store (rev canes_rows)) ''Canes''"
proof -
  have 1: "strip ''Canes'' \<noteq> []" by (simp add: strip_Canes)
  have 2: "\<not> is_int (strip ''Canes'')" by (simp add: strip_Canes is_int_def py_int_Canes)
  have 3: "orgs_ilike (demo_store canes_rows) (''%'' @ strip ''Canes'' @ ''%'') 200 = Inr canes_rows"
    by (simp add: demo_store_def canes_rows_def)
  have 4: "orgs_ilike (demo_store (rev canes_rows)) (''%'' @ strip ''Canes'' @ ''%'') 200 =
           Inr (rev canes_rows)"
    by (simp add: demo_store_def canes_rows_def)
  have 5: "mset canes_rows = mset (rev canes_rows)" by simp
  have 6: "\<forall>r\<in>set canes_rows. has_text_name r"
    by (simp add: canes_rows_def has_text_name_row)
  have "\<exists>out1 out2.
     fetch_org_candidates prefix_ratio (demo_store canes_rows) ''Canes'' = Inr out1 \<and>
     fetch_org_candidates prefix_ratio (demo_store (rev canes_rows)) ''Canes'' = Inr out2 \<and>
     (inj_on (sort_pair prefix_ratio (strip ''Canes'')) (set canes_rows) \<longrightarrow> out1 = out2)"
    using fetch_org_candidates_store_order [where ratio = prefix_ratio, OF 1 2 3 4 5 6]
    by (elim exE conjE, intro exI conjI) assumption+
  then have e: "fetch_org_candidates prefix_ratio (demo_store canes_rows) ''Canes'' =
      fetch_org_candidates prefix_ratio (demo_store (rev canes_rows)) ''Canes''"
    using inj_canes by (elim exE conjE) simp
  have t: "list_all has_text_name canes_rows" using 6 by (simp only: list_all_iff)
  from 1 2 5 t inj_canes e show ?thesis by (intro conjI)
qed

subsection \<open>Lookup by identifier\<close>

lemma strip_7: "strip '' 7 '' = ''7''"
  by (simp add: strip_def lstrip_def rstrip_def isspace_def)

lemma strip_7_plain: "strip ''7'' = ''7''"
  by (simp add: strip_def lstrip_def rstrip_def isspace_def)

lemma py_int_7: "py_int ''7'' = Some 7"
  by (simp add: py_int_def strip_7_plain is_digit_def decimal_def digit_val_def max_str_digits_def)

lemma orgs_eq_seven: "orgs_eq (demo_store seven_rows) 7 = Inr seven_rows"
  by (simp add: demo_store_def seven_rows_def org_row_def dict_get_def)

text \<open>
  Claim C4, as the code has it. For a query that, once stripped, is not empty and reads as
  an integer \<open>n\<close>, the search is the store's lookup of the identifier \<open>n\<close> and nothing
  else: it returns what the lookup returns, rows unchanged and in the store's order, or
  fails as the lookup fails. The similarity plays no part (the result is the same for any
  two ratio functions), and no score is attached. The result is empty or a single row
  whenever the store answers with at most one row.
\<close>

theorem fetch_org_candidates_by_id:
  assumes "strip query \<noteq> []" "is_int (strip query)"
  shows "\<exists>n. py_int (strip query) = Some n \<and>
     fetch_org_candidates ratio st query = orgs_eq st n \<and>
     fetch_org_candidates ratio' st query = fetch_org_candidates ratio st query \<and>
     (\<forall>rows. orgs_eq st n = Inr rows \<and> length rows \<le> 1 \<longrightarrow>
        fetch_org_candidates ratio st query = Inr rows \<and> (rows = [] \<or> (\<exists>r. rows = [r])))"
proof -
  from assms(2) obtain n where n: "py_int (strip query) = Some n"
    by (auto simp add: is_int_def)
  have f: "fetch_org_candidates ratio st query = orgs_eq st n"
    by (rule fetch_by_id [OF assms(1) n])
  have f': "fetch_org_candidates ratio' st query = fetch_org_candidates ratio st query"
    by (simp only: fetch_by_id [OF assms(1) n])
  have l: "\<forall>rows. orgs_eq st n = Inr rows \<and> length rows \<le> 1 \<longrightarrow>
        fetch_org_candidates ratio st query = Inr rows \<and> (rows = [] \<or> (\<exists>r. rows = [r]))"
  proof (intro allI impI)
    fix rows :: "row list"
    assume a: "orgs_eq st n = Inr rows \<and> length rows \<le> 1"
    then have "rows = [] \<or> (\<exists>r. rows = [r])" by (cases rows) auto
    with a f show "fetch_org_candidates ratio st query = Inr rows \<and> (rows = [] \<or> (\<exists>r. rows = [r]))"
      by simp
  qed
  show ?thesis
  proof (intro exI conjI)
    show "py_int (strip query) = Some n" by (rule n)
  qed (rule f f' l)+
qed

theorem fetch_org_candidates_by_id_witness:
  "strip '' 7 '' \<noteq> [] \<and> is_int (strip '' 7 '') \<and>
   fetch_org_candidates prefix_ratio (demo_store seven_rows) '' 7 '' = Inr seven_rows"
proof -
  have 1: "strip '' 7 '' \<noteq> []" by (simp add: strip_7)
  have 2: "is_int (strip '' 7 '')" by (simp add: strip_7 is_int_def py_int_7)
  have "\<exists>n. py_int (strip '' 7 '') = Some n \<and>
     fetch_org_candidates prefix_ratio (demo_store seven_rows) '' 7 '' =
       orgs_eq (demo_store seven_rows) n"
    using fetch_org_candidates_by_id [where ratio = prefix_ratio and ratio' = prefix_ratio
        and st = "demo_store seven_rows", OF 1 2]
    by (elim exE conjE, intro exI conjI) assumption+
  then have "fetch_org_candidates prefix_ratio (demo_store seven_rows) '' 7 '' =
       orgs_eq (demo_store seven_rows) 7"
    by (elim exE conjE) (simp add: strip_7 py_int_7)
  then have 3: "fetch_org_candidates prefix_ratio (demo_store seven_rows) '' 7 '' = Inr seven_rows"
    by (simp only: orgs_eq_seven)
  from 1 2 3 show ?thesis by (intro conjI)
qed

text \<open>
  The result of a lookup that finds its organisation carries no relevance score: for the
  query \<^verbatim>\<open>"7"\<close> and a store that holds organisation 7, the one row returned has the four
  selected columns and none of its cells is the number 1.0.
\<close>

theorem by_id_no_score_counterexample:
  "fetch_org_candidates prefix_ratio (demo_store seven_rows) ''7'' = Inr [org_row 7 ''Canes''] \<and>
   map fst (org_row 7 ''Canes'') =
     [''organization_id'', ''organization_name'', ''org_city'', ''org_state''] \<and>
   JReal 1 \<notin> set (map snd (org_row 7 ''Canes''))"
proof -
  have 1: "strip ''7'' \<noteq> []" by (simp add: strip_7_plain)
  have n: "py_int (strip ''7'') = Some 7" by (simp add: strip_7_plain py_int_7)
  have "fetch_org_candidates prefix_ratio (demo_store seven_rows) ''7'' = Inr seven_rows"
    by (simp only: fetch_by_id [OF 1 n] orgs_eq_seven)
  then show ?thesis by (simp add: seven_rows_def org_row_def)
qed

end
